theory Spec2Isabelle
  imports Main "HOL-Library.Multiset"
begin

section \<open>Strings\<close>

text \<open>
  Python strings are modelled as \<^typ>\<open>string\<close>: sequences of characters whose code
  points lie below 256.  The three string methods the scanner uses are written out for
  that range: \<open>str.isspace\<close> (the characters \<open>str.strip\<close> removes), \<open>str.lower\<close> and
  \<open>str.startswith\<close> / \<open>str.endswith\<close>.
\<close>

definition py_isspace :: "char \<Rightarrow> bool" where
  "py_isspace c = ((of_char c :: nat) \<in> {9, 10, 11, 12, 13, 28, 29, 30, 31, 32, 133, 160})"

definition py_strip :: "string \<Rightarrow> string" where
  "py_strip s = rev (dropWhile py_isspace (rev (dropWhile py_isspace s)))"

definition lower_char :: "char \<Rightarrow> char" where
  "lower_char c =
     (let n = (of_char c :: nat)
      in if (65 \<le> n \<and> n \<le> 90) \<or> (192 \<le> n \<and> n \<le> 222 \<and> n \<noteq> 215)
         then char_of (n + 32) else c)"

definition py_lower :: "string \<Rightarrow> string" where
  "py_lower s = map lower_char s"

fun startswith :: "string \<Rightarrow> string \<Rightarrow> bool" where
  "startswith s [] = True"
| "startswith [] (p # ps) = False"
| "startswith (c # cs) (p # ps) = (c = p \<and> startswith cs ps)"

definition endswith :: "string \<Rightarrow> string \<Rightarrow> bool" where
  "endswith s p = startswith (rev s) (rev p)"

fun py_join :: "string \<Rightarrow> string list \<Rightarrow> string" where
  "py_join sep [] = []"
| "py_join sep [x] = x"
| "py_join sep (x # y # ys) = x @ sep @ py_join sep (y # ys)"

section \<open>\<open>json.dumps\<close> on the values the sink writes\<close>

text \<open>
  \<open>JSONOutput.write\<close> calls \<open>json.dumps\<close> with its defaults on a dictionary of three
  strings and one list of strings.  With \<open>ensure_ascii\<close> a string is quoted, the quote
  and the backslash are escaped with a backslash, the five control characters with a
  short escape keep it, and every other character outside \<open>0x20 .. 0x7e\<close> becomes
  \<open>\uXXXX\<close> in lower-case hexadecimal.  Items are separated by \<open>", "\<close>, a key from
  its value by \<open>": "\<close>, and keys keep their insertion order.
\<close>

definition hexdigit :: "nat \<Rightarrow> char" where
  "hexdigit d = ''0123456789abcdef'' ! (d mod 16)"

definition hex4 :: "nat \<Rightarrow> string" where
  "hex4 n = [hexdigit (n div 4096), hexdigit (n div 256), hexdigit (n div 16), hexdigit n]"

definition json_escape_char :: "char \<Rightarrow> string" where
  "json_escape_char c =
     (let n = (of_char c :: nat)
      in if n = 34 then [CHR 0x5C, CHR 0x22]
         else if n = 92 then [CHR 0x5C, CHR 0x5C]
         else if n = 10 then [CHR 0x5C, CHR ''n'']
         else if n = 13 then [CHR 0x5C, CHR ''r'']
         else if n = 9 then [CHR 0x5C, CHR ''t'']
         else if n = 8 then [CHR 0x5C, CHR ''b'']
         else if n = 12 then [CHR 0x5C, CHR ''f'']
         else if n < 32 \<or> 126 < n then [CHR 0x5C, CHR ''u''] @ hex4 n
         else [c])"

definition json_dumps_str :: "string \<Rightarrow> string" where
  "json_dumps_str s = [CHR 0x22] @ concat (map json_escape_char s) @ [CHR 0x22]"

definition json_dumps_list :: "string list \<Rightarrow> string" where
  "json_dumps_list xs = ''['' @ py_join '', '' (map json_dumps_str xs) @ '']''"

definition json_dumps_entry :: "string \<Rightarrow> string list \<Rightarrow> string \<Rightarrow> string \<Rightarrow> string" where
  "json_dumps_entry dname ips method stamp =
     ''{'' @ json_dumps_str ''domain'' @ '': '' @ json_dumps_str dname @ '', ''
          @ json_dumps_str ''ips'' @ '': '' @ json_dumps_list ips @ '', ''
          @ json_dumps_str ''method'' @ '': '' @ json_dumps_str method @ '', ''
          @ json_dumps_str ''discovery_time'' @ '': '' @ json_dumps_str stamp @ ''}''"

section \<open>Output handlers\<close>

text \<open>
  An \<open>OutputHandler\<close> owns a file opened for writing; the model keeps the text written
  so far.  The clock is an input: every \<open>datetime.now()\<close> of the source is a parameter
  holding the formatted time.  The header of \<open>TextOutput\<close> is four comment lines of
  non-ASCII text around a formatted time; the model takes the finished header as the
  parameter \<open>banner\<close>.  Writing to a file that has been closed raises \<open>ValueError\<close>:
  \<open>write\<close> and \<open>close\<close> return \<open>None\<close> for it, and the handler is left as it was.
\<close>

datatype kind = TextOutput | JSONOutput | CSVOutput

record handler =
  hkind :: kind
  filename :: string
  content :: string
  first_entry :: bool
  closed :: bool

definition file_write :: "string \<Rightarrow> handler \<Rightarrow> handler" where
  "file_write s h = h\<lparr>content := content h @ s\<rparr>"

definition write_header :: "string \<Rightarrow> string \<Rightarrow> handler \<Rightarrow> handler" where
  \<open>write_header banner now h =
     (case hkind h of
        TextOutput \<Rightarrow> file_write banner h
      | JSONOutput \<Rightarrow>
          (file_write (''{"scan_info": {"start_time": "'' @ now @ ''", "subdomains": ['') h)
            \<lparr>first_entry := True\<rparr>
      | CSVOutput \<Rightarrow> file_write ''domain,ips,method,discovery_time\<newline>'' h)\<close>

definition OutputHandler_init :: "kind \<Rightarrow> string \<Rightarrow> string \<Rightarrow> string \<Rightarrow> handler" where
  "OutputHandler_init k fname banner now =
     write_header banner now
       \<lparr>hkind = k, filename = fname, content = [], first_entry = False, closed = False\<rparr>"

definition handler_write :: "string \<Rightarrow> string \<Rightarrow> string list \<Rightarrow> string \<Rightarrow> handler \<Rightarrow> handler option" where
  \<open>handler_write now dname ips method h =
     (if closed h then None
      else Some
        (case hkind h of
           TextOutput \<Rightarrow> file_write (dname @ ''\<newline>'') h
         | JSONOutput \<Rightarrow>
             (file_write (json_dumps_entry dname ips method now)
                (if \<not> first_entry h then file_write '','' h else h))
               \<lparr>first_entry := False\<rparr>
         | CSVOutput \<Rightarrow>
             (let ips_str = py_join '';'' ips
              in file_write (''"'' @ dname @ ''","'' @ ips_str @ ''","'' @ method @ ''","''
                               @ now @ ''"\<newline>'') h)))\<close>

definition handler_close :: "handler \<Rightarrow> handler option" where
  "handler_close h =
     (case hkind h of
        JSONOutput \<Rightarrow> if closed h then None else Some ((file_write '']}'' h)\<lparr>closed := True\<rparr>)
      | _ \<Rightarrow> Some (h\<lparr>closed := True\<rparr>))"

text \<open>
  \<open>for handler in self.output_handlers: handler.write(...)\<close>, and the same loop with
  \<open>close\<close>: the handlers are served in order, and the first one that raises ends the
  loop.  The flag says whether one raised.
\<close>

fun write_handlers ::
  "string \<Rightarrow> string \<Rightarrow> string list \<Rightarrow> string \<Rightarrow> handler list \<Rightarrow> handler list \<times> bool" where
  "write_handlers now dname ips method [] = ([], False)"
| "write_handlers now dname ips method (h # hs) =
     (case handler_write now dname ips method h of
        None \<Rightarrow> (h # hs, True)
      | Some h' \<Rightarrow>
          (let (hs', raised) = write_handlers now dname ips method hs in (h' # hs', raised)))"

fun close_handlers :: "handler list \<Rightarrow> handler list \<times> bool" where
  "close_handlers [] = ([], False)"
| "close_handlers (h # hs) =
     (case handler_close h of
        None \<Rightarrow> (h # hs, True)
      | Some h' \<Rightarrow> (let (hs', raised) = close_handlers hs in (h' # hs', raised)))"

section \<open>The scanner\<close>

text \<open>
  The network is an input of the scan.  \<open>resolve\<close> answers an A query with the
  addresses as text, or with \<open>None\<close> when \<open>resolver.resolve\<close> raises; \<open>requests_get\<close>
  answers a GET with the status code, or with \<open>None\<close> when \<open>requests.get\<close> raises.
  Each scan function returns, beside its result, the network calls it made, in order.
\<close>

record net =
  resolve :: "string \<Rightarrow> string list option"
  requests_get :: "string \<Rightarrow> int option"

datatype call = Resolve string | Get string

type_synonym found = "string \<times> string list \<times> string"

datatype message =
    Loaded nat
  | FileMissing string
  | ReadFailed string
  | Discovered string string
  | Progress int nat

text \<open>
  The fields of \<open>SubdomainScanner\<close> that the scan reads or writes.  The thread count,
  the timeout, the start time and the lock take no part in what is computed: the
  lock makes the update at the end of \<open>check_subdomain\<close> one atomic step, which is how
  the model runs it.  \<open>printed\<close> collects what the scanner prints.
\<close>

record scanner =
  domain :: string
  found_subdomains :: "string set"
  checked_count :: int
  output_handlers :: "handler list"
  printed :: "message list"

definition SubdomainScanner_init :: "string \<Rightarrow> string option \<Rightarrow> string \<Rightarrow> string \<Rightarrow> scanner" where
  "SubdomainScanner_init dname output banner now =
     \<lparr>domain = py_strip (py_lower dname),
      found_subdomains = {},
      checked_count = 0,
      output_handlers =
        (case output of
           None \<Rightarrow> []
         | Some path \<Rightarrow>
             if path = [] then []
             else if endswith path ''.json'' then [OutputHandler_init JSONOutput path banner now]
             else if endswith path ''.csv'' then [OutputHandler_init CSVOutput path banner now]
             else [OutputHandler_init TextOutput path banner now]),
      printed = []\<rparr>"

definition full_domain :: "scanner \<Rightarrow> string \<Rightarrow> string" where
  "full_domain self subdomain = subdomain @ ''.'' @ domain self"

definition dns_scan :: "net \<Rightarrow> scanner \<Rightarrow> string \<Rightarrow> found option \<times> call list" where
  "dns_scan nw self subdomain =
     (let fd = full_domain self subdomain
      in (case resolve nw fd of
            Some ips \<Rightarrow> Some (fd, ips, ''DNS'')
          | None \<Rightarrow> None,
          [Resolve fd]))"

fun http_loop :: "net \<Rightarrow> string \<Rightarrow> string list \<Rightarrow> found option \<times> call list" where
  "http_loop nw fd [] = (None, [])"
| "http_loop nw fd (protocol # rest) =
     (let url = protocol @ ''://'' @ fd
      in case requests_get nw url of
           Some status_code \<Rightarrow>
             if status_code < 400 then (Some (fd, [url], ''HTTP''), [Get url])
             else (let (r, cs) = http_loop nw fd rest in (r, Get url # cs))
         | None \<Rightarrow> (let (r, cs) = http_loop nw fd rest in (r, Get url # cs)))"

definition http_scan :: "net \<Rightarrow> scanner \<Rightarrow> string \<Rightarrow> found option \<times> call list" where
  "http_scan nw self subdomain = http_loop nw (full_domain self subdomain) [''https'', ''http'']"

definition certificate_scan :: "net \<Rightarrow> scanner \<Rightarrow> string \<Rightarrow> found option \<times> call list" where
  "certificate_scan nw self subdomain = (None, [])"

text \<open>
  The loop of \<open>check_subdomain\<close> over \<open>methods\<close>.  \<open>result\<close> is the variable of the
  source: a name that is none of \<open>dns\<close>, \<open>http\<close>, \<open>cert\<close> takes no branch and leaves it
  as it was.  A tuple is truthy, \<open>None\<close> is not, so \<open>if result: break\<close> leaves the loop
  exactly when \<open>result\<close> is a record.
\<close>

fun methods_loop ::
  "net \<Rightarrow> scanner \<Rightarrow> string \<Rightarrow> found option \<Rightarrow> string list \<Rightarrow> found option \<times> call list" where
  "methods_loop nw self subdomain result [] = (result, [])"
| "methods_loop nw self subdomain result (method # rest) =
     (let (result', cs) =
            (if method = ''dns'' then dns_scan nw self subdomain
             else if method = ''http'' then http_scan nw self subdomain
             else if method = ''cert'' then certificate_scan nw self subdomain
             else (result, []))
      in if result' \<noteq> None then (result', cs)
         else (let (r, cs') = methods_loop nw self subdomain result' rest in (r, cs @ cs')))"

definition probe :: "net \<Rightarrow> scanner \<Rightarrow> string \<Rightarrow> string list \<Rightarrow> found option \<times> call list" where
  "probe nw self subdomain methods = methods_loop nw self subdomain None methods"

text \<open>
  The part of \<open>check_subdomain\<close> under the lock: count the candidate, and for a record
  add its domain to the set, print it, hand it to every handler and return the domain;
  otherwise print the progress at every hundredth candidate and return \<open>None\<close>.  When
  a handler raises, the exception leaves \<open>check_subdomain\<close> with the count, the set and the
  earlier handlers already updated: the call ends in \<open>Raises\<close> instead of returning.
\<close>

datatype returned = Returns "string option" | Raises

definition record_result :: "string \<Rightarrow> found option \<Rightarrow> scanner \<Rightarrow> scanner \<times> returned" where
  "record_result now result self =
     (let self1 = self\<lparr>checked_count := checked_count self + 1\<rparr>
      in case result of
           Some (dname, ips, method) \<Rightarrow>
             (let (hs, raised) = write_handlers now dname ips method (output_handlers self1)
              in (self1\<lparr>found_subdomains := insert dname (found_subdomains self1),
                        printed := printed self1 @ [Discovered dname method],
                        output_handlers := hs\<rparr>,
                  if raised then Raises else Returns (Some dname)))
         | None \<Rightarrow>
             ((if checked_count self1 mod 100 = 0
               then self1\<lparr>printed := printed self1
                                 @ [Progress (checked_count self1) (card (found_subdomains self1))]\<rparr>
               else self1),
              Returns None))"

definition check_subdomain ::
  "net \<Rightarrow> string \<Rightarrow> scanner \<Rightarrow> string \<Rightarrow> string list \<Rightarrow> (scanner \<times> returned) \<times> call list" where
  "check_subdomain nw now self subdomain methods =
     (let (result, cs) = probe nw self subdomain methods
      in (record_result now result self, cs))"

section \<open>Candidates and scans\<close>

text \<open>
  What opening and reading the wordlist gives: \<open>FileNotFoundError\<close>, any other
  exception (with its text), or the lines of the file as the iteration over the file
  yields them.
\<close>

datatype file_read = NoSuchFile | Unreadable string | Lines "string list"

fun read_lines :: "string list \<Rightarrow> string set \<Rightarrow> string set" where
  "read_lines [] subdomains = subdomains"
| "read_lines (line # rest) subdomains =
     (let subdomain = py_strip line
      in if subdomain \<noteq> [] \<and> \<not> startswith subdomain ''#''
         then read_lines rest (insert subdomain subdomains)
         else read_lines rest subdomains)"

text \<open>
  \<open>load_subdomains_from_file\<close> returns \<open>list(subdomains)\<close>, whose order Python leaves
  open; the model returns the set, and \<open>py_list_of_set\<close> says which lists \<open>list\<close> can
  make of it.  The two \<open>except\<close> branches return the empty list, the only list of the
  empty set.
\<close>

definition py_list_of_set :: "'a set \<Rightarrow> 'a list \<Rightarrow> bool" where
  "py_list_of_set S xs = (distinct xs \<and> set xs = S)"

definition load_subdomains_from_file ::
  "(string \<Rightarrow> file_read) \<Rightarrow> scanner \<Rightarrow> string \<Rightarrow> scanner \<times> string set" where
  "load_subdomains_from_file fs self wordlist_file =
     (case fs wordlist_file of
        Lines ls \<Rightarrow>
          (let subdomains = read_lines ls {}
           in (self\<lparr>printed := printed self @ [Loaded (card subdomains)]\<rparr>, subdomains))
      | NoSuchFile \<Rightarrow> (self\<lparr>printed := printed self @ [FileMissing wordlist_file]\<rparr>, {})
      | Unreadable e \<Rightarrow> (self\<lparr>printed := printed self @ [ReadFailed e]\<rparr>, {}))"

text \<open>
  The executor runs one \<open>check_subdomain\<close> per submitted candidate and the lock orders
  their final updates.  \<open>schedule\<close> lists the candidates in the order in which their
  tasks take the lock, each with the clock reading of its update; \<open>as_completed\<close> says
  that every submitted task is run once.  A probe reads only \<open>self.domain\<close>, which no
  update changes, so running each probe just before its update gives the same result.
  An exception of a task is caught where its result is collected, and the loop goes on.
\<close>

fun run_tasks :: "net \<Rightarrow> string list \<Rightarrow> (string \<times> string) list \<Rightarrow> scanner \<Rightarrow> scanner \<times> call list" where
  "run_tasks nw methods [] self = (self, [])"
| "run_tasks nw methods ((subdomain, now) # rest) self =
     (let ((self1, r), cs) = check_subdomain nw now self subdomain methods;
          (self2, cs') = run_tasks nw methods rest self1
      in (self2, cs @ cs'))"

definition as_completed :: "string list \<Rightarrow> (string \<times> string) list \<Rightarrow> bool" where
  "as_completed submitted schedule = (mset (map fst schedule) = mset submitted)"

definition scan_with_wordlist ::
  "(string \<Rightarrow> file_read) \<Rightarrow> net \<Rightarrow> scanner \<Rightarrow> string \<Rightarrow> string list \<Rightarrow> (string \<times> string) list
     \<Rightarrow> scanner \<times> call list" where
  "scan_with_wordlist fs nw self wordlist_file methods schedule =
     (let (self1, subdomains) = load_subdomains_from_file fs self wordlist_file
      in if subdomains = {} then (self1, [])
         else run_tasks nw methods schedule self1)"

definition common_subdomains :: "string list" where
  "common_subdomains =
     [''www'', ''mail'', ''ftp'', ''localhost'', ''webmail'', ''smtp'', ''pop'', ''ns1'', ''webdisk'',
      ''ns2'', ''cpanel'', ''whm'', ''autodiscover'', ''autoconfig'', ''ns'', ''test'', ''admin'',
      ''blog'', ''dev'', ''api'', ''secure'', ''vpn'', ''mobile'', ''shop'', ''app'', ''cdn'', ''m'',
      ''email'', ''portal'', ''support'', ''forum'', ''news'', ''media'', ''static'', ''docs'',
      ''store'', ''shop'', ''db'', ''sql'', ''backup'', ''old'', ''new'', ''beta'', ''staging'',
      ''mail2'', ''test'', ''live'', ''search'', ''images'', ''img'', ''download'', ''uploads'',
      ''video'', ''music'', ''demo'', ''help'', ''kb'', ''wiki'', ''status'', ''monitor'',
      ''payment'', ''billing'', ''invoice'', ''secure'', ''ssl'', ''cdn'', ''cloud'', ''server'',
      ''serv'', ''service'', ''services'', ''app'', ''apps'', ''office'', ''remote'', ''share'',
      ''shared'', ''sharepoint'', ''ftp'', ''file'', ''files'', ''doc'', ''docs'', ''document'',
      ''map'', ''yiyan'', ''chat'', ''baijiahao'', ''ti'', ''zhidao'']"

definition common_scan ::
  "net \<Rightarrow> scanner \<Rightarrow> string list \<Rightarrow> (string \<times> string) list \<Rightarrow> scanner \<times> call list" where
  "common_scan nw self methods schedule = run_tasks nw methods schedule self"

definition generate_report :: "scanner \<Rightarrow> scanner \<times> bool" where
  "generate_report self =
     (let (hs, raised) = close_handlers (output_handlers self)
      in (self\<lparr>output_handlers := hs\<rparr>, raised))"

text \<open>What a handler's file holds after the header, the given writes and the close.\<close>

fun write_all :: "(string \<times> string list \<times> string \<times> string) list \<Rightarrow> handler \<Rightarrow> handler option" where
  "write_all [] h = Some h"
| "write_all ((dname, ips, method, now) # rest) h =
     (case handler_write now dname ips method h of
        None \<Rightarrow> None
      | Some h' \<Rightarrow> write_all rest h')"

definition sink_output ::
  "kind \<Rightarrow> string \<Rightarrow> string \<Rightarrow> (string \<times> string list \<times> string \<times> string) list \<Rightarrow> string option" where
  "sink_output k banner start records =
     (case write_all records (OutputHandler_init k [] banner start) of
        None \<Rightarrow> None
      | Some h \<Rightarrow> map_option content (handler_close h))"

section \<open>Auxiliary notions for the properties\<close>

text \<open>
  What one entry of \<open>methods\<close> does on its own: the branch of \<open>check_subdomain\<close> that its
  name selects, and nothing for any other name.
\<close>

definition run_method :: "net \<Rightarrow> scanner \<Rightarrow> string \<Rightarrow> string \<Rightarrow> found option \<times> call list" where
  "run_method nw self subdomain method =
     (if method = ''dns'' then dns_scan nw self subdomain
      else if method = ''http'' then http_scan nw self subdomain
      else if method = ''cert'' then certificate_scan nw self subdomain
      else (None, []))"

text \<open>A request succeeds for \<open>http_scan\<close> when it returns and its status code is below 400.\<close>

definition below_400 :: "net \<Rightarrow> string \<Rightarrow> bool" where
  "below_400 nw url = (case requests_get nw url of Some status_code \<Rightarrow> status_code < 400 | None \<Rightarrow> False)"

text \<open>
  The records a run hands to the handlers, in the order of the schedule: one for each
  scheduled candidate whose probe returns a record, with the clock reading of its update.
\<close>

fun hits :: "net \<Rightarrow> scanner \<Rightarrow> string list \<Rightarrow> (string \<times> string) list
    \<Rightarrow> (string \<times> string list \<times> string \<times> string) list" where
  "hits nw self methods [] = []"
| "hits nw self methods ((subdomain, now) # rest) =
     (case fst (probe nw self subdomain methods) of
        Some (dname, ips, method) \<Rightarrow> (dname, ips, method, now) # hits nw self methods rest
      | None \<Rightarrow> hits nw self methods rest)"

text \<open>
  The CSV row as the specification words it: the four fields, the addresses joined by
  semicolons, each field between double quotes, separated by commas, one row per line.
\<close>

definition csv_quote :: "string \<Rightarrow> string" where
  "csv_quote s = [CHR 0x22] @ s @ [CHR 0x22]"

definition csv_row :: "string \<times> string list \<times> string \<times> string \<Rightarrow> string" where
  "csv_row r =
     (case r of (dname, ips, method, stamp) \<Rightarrow>
        py_join '','' (map csv_quote [dname, py_join '';'' ips, method, stamp]) @ ''\<newline>'')"

definition first_line :: "string \<Rightarrow> string" where
  "first_line s = takeWhile (\<lambda>c. c \<noteq> CHR ''\<newline>'') s"

text \<open>
  The candidates of a wordlist as the specification words them: every line trimmed,
  blank lines and lines beginning with \<open>#\<close> left out, duplicates removed.
\<close>

definition wordlist_labels :: "string list \<Rightarrow> string set" where
  "wordlist_labels ls = set (filter (\<lambda>s. s \<noteq> [] \<and> \<not> startswith s ''#'') (map py_strip ls))"

section \<open>Reading JSON\<close>

text \<open>
  A reader for JSON texts after RFC 8259, to say what parsing the file of a
  \<open>JSONOutput\<close> gives.  A lexer turns the characters into tokens, a pushdown parser
  turns the tokens into a value; both consume their input one item at a time, so they
  are total and a text is rejected exactly when the result is \<open>None\<close>.  Strings are read
  into code points; an escape \<open>\uXXXX\<close> is read as the code unit it names.
\<close>

datatype json =
    JNull
  | JBool bool
  | JNumber string
  | JString "nat list"
  | JArray "json list"
  | JObject "(nat list \<times> json) list"

datatype token =
    LBrace | RBrace | LBracket | RBracket | Colon | Comma
  | TString "nat list" | TNumber string | TWord string

datatype numst = NMinus | NZero | NInt | NDot | NFrac | NExp | NExpSign | NExpDigits

datatype lexst =
    Idle
  | InString "nat list"
  | InEscape "nat list"
  | InHex "nat list" "nat list"
  | InNumber numst string
  | InWord string

definition is_digit :: "char \<Rightarrow> bool" where
  "is_digit c = (48 \<le> (of_char c :: nat) \<and> (of_char c :: nat) \<le> 57)"

definition is_letter :: "char \<Rightarrow> bool" where
  "is_letter c = (97 \<le> (of_char c :: nat) \<and> (of_char c :: nat) \<le> 122)"

definition is_json_space :: "char \<Rightarrow> bool" where
  "is_json_space c = ((of_char c :: nat) \<in> {32, 9, 10, 13})"

definition hex_value :: "char \<Rightarrow> nat option" where
  "hex_value c =
     (let n = (of_char c :: nat)
      in if 48 \<le> n \<and> n \<le> 57 then Some (n - 48)
         else if 97 \<le> n \<and> n \<le> 102 then Some (n - 87)
         else if 65 \<le> n \<and> n \<le> 70 then Some (n - 55)
         else None)"

definition unescape :: "char \<Rightarrow> nat option" where
  "unescape c =
     (let n = (of_char c :: nat)
      in if n = 34 \<or> n = 92 \<or> n = 47 then Some n
         else if c = CHR ''b'' then Some 8
         else if c = CHR ''f'' then Some 12
         else if c = CHR ''n'' then Some 10
         else if c = CHR ''r'' then Some 13
         else if c = CHR ''t'' then Some 9
         else None)"

fun num_step :: "numst \<Rightarrow> char \<Rightarrow> numst option" where
  "num_step NMinus c = (if c = CHR ''0'' then Some NZero else if is_digit c then Some NInt else None)"
| "num_step NZero c =
     (if c = CHR ''.'' then Some NDot else if c = CHR ''e'' \<or> c = CHR ''E'' then Some NExp else None)"
| "num_step NInt c =
     (if is_digit c then Some NInt else if c = CHR ''.'' then Some NDot
      else if c = CHR ''e'' \<or> c = CHR ''E'' then Some NExp else None)"
| "num_step NDot c = (if is_digit c then Some NFrac else None)"
| "num_step NFrac c =
     (if is_digit c then Some NFrac else if c = CHR ''e'' \<or> c = CHR ''E'' then Some NExp else None)"
| "num_step NExp c =
     (if is_digit c then Some NExpDigits else if c = CHR ''+'' \<or> c = CHR ''-'' then Some NExpSign else None)"
| "num_step NExpSign c = (if is_digit c then Some NExpDigits else None)"
| "num_step NExpDigits c = (if is_digit c then Some NExpDigits else None)"

definition num_final :: "numst \<Rightarrow> bool" where
  "num_final s = (s = NZero \<or> s = NInt \<or> s = NFrac \<or> s = NExpDigits)"

definition idle_step :: "char \<Rightarrow> (token list \<times> lexst) option" where
  "idle_step c =
     (if is_json_space c then Some ([], Idle)
      else if c = CHR ''{'' then Some ([LBrace], Idle)
      else if c = CHR ''}'' then Some ([RBrace], Idle)
      else if c = CHR ''['' then Some ([LBracket], Idle)
      else if c = CHR '']'' then Some ([RBracket], Idle)
      else if c = CHR '':'' then Some ([Colon], Idle)
      else if c = CHR '','' then Some ([Comma], Idle)
      else if c = CHR 0x22 then Some ([], InString [])
      else if c = CHR ''-'' then Some ([], InNumber NMinus [c])
      else if c = CHR ''0'' then Some ([], InNumber NZero [c])
      else if is_digit c then Some ([], InNumber NInt [c])
      else if is_letter c then Some ([], InWord [c])
      else None)"

fun lex_step :: "lexst \<Rightarrow> char \<Rightarrow> (token list \<times> lexst) option" where
  "lex_step Idle c = idle_step c"
| "lex_step (InString acc) c =
     (if c = CHR 0x22 then Some ([TString (rev acc)], Idle)
      else if c = CHR 0x5C then Some ([], InEscape acc)
      else if (of_char c :: nat) < 32 then None
      else Some ([], InString (of_char c # acc)))"
| "lex_step (InEscape acc) c =
     (if c = CHR ''u'' then Some ([], InHex acc [])
      else case unescape c of None \<Rightarrow> None | Some n \<Rightarrow> Some ([], InString (n # acc)))"
| "lex_step (InHex acc ds) c =
     (case hex_value c of
        None \<Rightarrow> None
      | Some d \<Rightarrow>
          (case ds of
             [d1, d2, d3] \<Rightarrow> Some ([], InString ((((d1 * 16 + d2) * 16 + d3) * 16 + d) # acc))
           | _ \<Rightarrow> Some ([], InHex acc (ds @ [d]))))"
| "lex_step (InNumber s acc) c =
     (case num_step s c of
        Some s' \<Rightarrow> Some ([], InNumber s' (c # acc))
      | None \<Rightarrow>
          if num_final s
          then (case idle_step c of None \<Rightarrow> None | Some (ts, st) \<Rightarrow> Some (TNumber (rev acc) # ts, st))
          else None)"
| "lex_step (InWord acc) c =
     (if is_letter c then Some ([], InWord (c # acc))
      else (case idle_step c of None \<Rightarrow> None | Some (ts, st) \<Rightarrow> Some (TWord (rev acc) # ts, st)))"

fun lex_end :: "lexst \<Rightarrow> token list option" where
  "lex_end Idle = Some []"
| "lex_end (InNumber s acc) = (if num_final s then Some [TNumber (rev acc)] else None)"
| "lex_end (InWord acc) = Some [TWord (rev acc)]"
| "lex_end _ = None"

fun lex :: "lexst \<Rightarrow> string \<Rightarrow> token list option" where
  "lex st [] = lex_end st"
| "lex st (c # cs) =
     (case lex_step st c of
        None \<Rightarrow> None
      | Some (ts, st') \<Rightarrow> (case lex st' cs of None \<Rightarrow> None | Some r \<Rightarrow> Some (ts @ r)))"

datatype frame = InArray "json list" | InObject "(nat list \<times> json) list" "nat list"

datatype expect =
    WantValue | WantValueOrClose | WantKeyOrClose | WantKey | WantColon | AfterValue | Finished json

fun deliver :: "json \<Rightarrow> frame list \<Rightarrow> expect \<times> frame list" where
  "deliver v [] = (Finished v, [])"
| "deliver v (InArray es # st) = (AfterValue, InArray (v # es) # st)"
| "deliver v (InObject ms k # st) = (AfterValue, InObject ((k, v) # ms) k # st)"

fun close_array :: "frame list \<Rightarrow> (expect \<times> frame list) option" where
  "close_array (InArray es # st) = Some (deliver (JArray (rev es)) st)"
| "close_array _ = None"

fun close_object :: "frame list \<Rightarrow> (expect \<times> frame list) option" where
  "close_object (InObject ms k # st) = Some (deliver (JObject (rev ms)) st)"
| "close_object _ = None"

fun value_token :: "token \<Rightarrow> frame list \<Rightarrow> (expect \<times> frame list) option" where
  "value_token (TString s) st = Some (deliver (JString s) st)"
| "value_token (TNumber n) st = Some (deliver (JNumber n) st)"
| "value_token (TWord w) st =
     (if w = ''true'' then Some (deliver (JBool True) st)
      else if w = ''false'' then Some (deliver (JBool False) st)
      else if w = ''null'' then Some (deliver JNull st)
      else None)"
| "value_token LBracket st = Some (WantValueOrClose, InArray [] # st)"
| "value_token LBrace st = Some (WantKeyOrClose, InObject [] [] # st)"
| "value_token _ st = None"

fun key_token :: "token \<Rightarrow> frame list \<Rightarrow> (expect \<times> frame list) option" where
  "key_token (TString s) (InObject ms k # st) = Some (WantColon, InObject ms s # st)"
| "key_token _ _ = None"

fun parse_step :: "expect \<times> frame list \<Rightarrow> token \<Rightarrow> (expect \<times> frame list) option" where
  "parse_step (WantValue, st) t = value_token t st"
| "parse_step (WantValueOrClose, st) t = (if t = RBracket then close_array st else value_token t st)"
| "parse_step (WantKeyOrClose, st) t = (if t = RBrace then close_object st else key_token t st)"
| "parse_step (WantKey, st) t = key_token t st"
| "parse_step (WantColon, st) t = (if t = Colon then Some (WantValue, st) else None)"
| "parse_step (AfterValue, st) t =
     (if t = RBracket then close_array st
      else if t = RBrace then close_object st
      else if t = Comma then
        (case st of
           InArray es # r \<Rightarrow> Some (WantValue, st)
         | InObject ms k # r \<Rightarrow> Some (WantKey, st)
         | [] \<Rightarrow> None)
      else None)"
| "parse_step (Finished v, st) t = None"

fun parse :: "expect \<times> frame list \<Rightarrow> token list \<Rightarrow> (expect \<times> frame list) option" where
  "parse ps [] = Some ps"
| "parse ps (t # ts) = (case parse_step ps t of None \<Rightarrow> None | Some ps' \<Rightarrow> parse ps' ts)"

definition json_loads :: "string \<Rightarrow> json option" where
  "json_loads s =
     (case lex Idle s of
        None \<Rightarrow> None
      | Some ts \<Rightarrow>
          (case parse (WantValue, []) ts of
             Some (Finished v, []) \<Rightarrow> Some v
           | _ \<Rightarrow> None))"

text \<open>Code points of a string, to compare what was read with what was written.\<close>

definition codepoints :: "string \<Rightarrow> nat list" where
  "codepoints s = map of_char s"

definition entry_json :: "string \<times> string list \<times> string \<times> string \<Rightarrow> json" where
  "entry_json r =
     (case r of (dname, ips, method, stamp) \<Rightarrow>
        JObject [(codepoints ''domain'', JString (codepoints dname)),
                 (codepoints ''ips'', JArray (map (\<lambda>ip. JString (codepoints ip)) ips)),
                 (codepoints ''method'', JString (codepoints method)),
                 (codepoints ''discovery_time'', JString (codepoints stamp))])"

definition scan_info_json :: "string \<Rightarrow> (string \<times> string list \<times> string \<times> string) list \<Rightarrow> json" where
  "scan_info_json start records =
     JObject [(codepoints ''scan_info'',
               JObject [(codepoints ''start_time'', JString (codepoints start)),
                        (codepoints ''subdomains'', JArray (map entry_json records))])]"

section \<open>Concrete inputs\<close>

text \<open>
  A network in which only \<open>www.example.com\<close> resolves, \<open>https://api.example.com\<close> answers
  503, \<open>http://api.example.com\<close> answers 200 and every other request fails; a scanner
  for \<open>example.com\<close> without an output file; a wordlist.
\<close>

definition example_net :: net where
  "example_net =
     \<lparr>resolve = (\<lambda>name. if name = ''www.example.com'' then Some [''93.184.216.34''] else None),
      requests_get = (\<lambda>url. if url = ''https://api.example.com'' then Some 503
                            else if url = ''http://api.example.com'' then Some 200
                            else None)\<rparr>"

definition example_scanner :: scanner where
  "example_scanner = SubdomainScanner_init ''  Example.COM '' None [] ''2024-05-01T10:00:00''"

definition example_csv_scanner :: scanner where
  "example_csv_scanner =
     SubdomainScanner_init ''example.com'' (Some ''report.csv'') [] ''2024-05-01T10:00:00''"

definition example_files :: "string \<Rightarrow> file_read" where
  "example_files path =
     (if path = ''words.txt''
      then Lines [''www\<newline>'', ''  api  \<newline>'', ''# comment\<newline>'', ''\<newline>'', ''www\<newline>'', ''  #x\<newline>'']
      else if path = ''locked.txt'' then Unreadable ''Permission denied''
      else NoSuchFile)"
section \<open>The probe pipeline\<close>

lemma methods_loop_step:
  "methods_loop nw self sub None (m # rest) =
     (case fst (run_method nw self sub m) of
        Some r \<Rightarrow> (Some r, snd (run_method nw self sub m))
      | None \<Rightarrow> (fst (methods_loop nw self sub None rest),
                 snd (run_method nw self sub m) @ snd (methods_loop nw self sub None rest)))"
  by (auto simp: run_method_def split: prod.splits option.splits)

lemma methods_loop_misses:
  "\<forall>m \<in> set pre. fst (run_method nw self sub m) = None \<Longrightarrow>
   methods_loop nw self sub None (pre @ rest) =
     (fst (methods_loop nw self sub None rest),
      concat (map (\<lambda>m. snd (run_method nw self sub m)) pre) @ snd (methods_loop nw self sub None rest))"
proof (induction pre)
  case Nil
  show ?case by simp
next
  case (Cons m pre)
  then show ?case by (simp add: methods_loop_step del: methods_loop.simps)
qed

lemma methods_loop_None_iff:
  "fst (methods_loop nw self sub None ms) = None \<longleftrightarrow> (\<forall>m \<in> set ms. fst (run_method nw self sub m) = None)"
proof (induction ms)
  case Nil
  show ?case by simp
next
  case (Cons m ms)
  then show ?case by (simp add: methods_loop_step del: methods_loop.simps split: option.splits)
qed

lemma http_loop_two:
  "http_loop nw fd [''https'', ''http''] =
     (if below_400 nw (''https://'' @ fd) then (Some (fd, [''https://'' @ fd], ''HTTP''), [Get (''https://'' @ fd)])
      else if below_400 nw (''http://'' @ fd)
           then (Some (fd, [''http://'' @ fd], ''HTTP''), [Get (''https://'' @ fd), Get (''http://'' @ fd)])
           else (None, [Get (''https://'' @ fd), Get (''http://'' @ fd)]))"
  by (simp add: below_400_def Let_def split: option.splits)

lemma methods_loop_skip:
  assumes "m \<noteq> ''dns''" "m \<noteq> ''http''" "m \<noteq> ''cert''"
  shows "methods_loop nw self sub None (pre @ m # post) = methods_loop nw self sub None (pre @ post)"
proof (induction pre)
  case Nil
  show ?case using assms by (simp split: prod.splits)
next
  case (Cons a pre)
  show ?case by (simp add: methods_loop_step Cons.IH del: methods_loop.simps split: option.splits)
qed

lemma probe_hit:
  assumes "\<forall>m' \<in> set pre. fst (run_method nw self sub m') = None"
    and "fst (run_method nw self sub m) = Some r"
  shows "probe nw self sub (pre @ m # post) =
     (Some r, concat (map (\<lambda>m'. snd (run_method nw self sub m')) pre) @ snd (run_method nw self sub m))"
  using assms by (simp add: probe_def methods_loop_misses methods_loop_step del: methods_loop.simps)

lemma probe_miss:
  assumes "\<forall>m \<in> set ms. fst (run_method nw self sub m) = None"
  shows "probe nw self sub ms = (None, concat (map (\<lambda>m. snd (run_method nw self sub m)) ms))"
  using methods_loop_misses [OF assms, of "[]"] by (simp add: probe_def)

lemma probe_None_iff:
  "fst (probe nw self sub ms) = None \<longleftrightarrow> (\<forall>m \<in> set ms. fst (run_method nw self sub m) = None)"
  by (simp add: probe_def methods_loop_None_iff)

lemma check_subdomain_probe:
  "check_subdomain nw now self sub ms
     = (record_result now (fst (probe nw self sub ms)) self, snd (probe nw self sub ms))"
  by (simp add: check_subdomain_def split_def Let_def)

lemma write_handlers_open:
  "\<forall>h \<in> set hs. \<not> closed h \<Longrightarrow> snd (write_handlers now d ips m hs) = False"
  by (induction hs) (auto simp: handler_write_def split_def)

lemma record_result_returns_None:
  "snd (record_result now result self) = Returns None \<longleftrightarrow> result = None"
  by (cases result) (auto simp: record_result_def Let_def split_def)

lemma record_result_returns_open:
  "\<forall>h \<in> set (output_handlers self). \<not> closed h \<Longrightarrow>
   snd (record_result now result self) = Returns (map_option fst result)"
  by (cases result) (auto simp: record_result_def Let_def split_def write_handlers_open)

text \<open>
  Claim C3.  The probe of \<open>check_subdomain\<close> runs the methods in the order of the list
  and stops at the first one that returns a record.  When the entries before \<open>m\<close> all
  miss and \<open>m\<close> returns the record \<open>r\<close>, the probe yields exactly \<open>r\<close>, and the network calls
  made are those of the entries before \<open>m\<close>, in their order, followed by those of \<open>m\<close>: no
  later entry is invoked.  When every entry misses, the probe yields no record and the
  calls made are those of all the entries in the order of the list.  The probe yields
  no record exactly when every entry misses.  With the list \<open>[dns, http]\<close>, for a name that
  resolves the probe yields the DNS record after the one lookup, and no HTTP request
  is made.  \<open>check_subdomain\<close> makes the calls of the probe and hands its result to the
  update; it returns \<open>None\<close> exactly when every entry misses, and with no closed output
  file it returns the domain of the record found.
\<close>

theorem check_subdomain_short_circuit:
  "(\<forall>pre m post r.
      methods = pre @ m # post \<and> (\<forall>m' \<in> set pre. fst (run_method nw self sub m') = None)
        \<and> fst (run_method nw self sub m) = Some r
      \<longrightarrow> probe nw self sub methods
            = (Some r, concat (map (\<lambda>m'. snd (run_method nw self sub m')) pre)
                         @ snd (run_method nw self sub m)))
   \<and> ((\<forall>m \<in> set methods. fst (run_method nw self sub m) = None)
        \<longrightarrow> probe nw self sub methods
              = (None, concat (map (\<lambda>m. snd (run_method nw self sub m)) methods)))
   \<and> (fst (probe nw self sub methods) = None
        \<longleftrightarrow> (\<forall>m \<in> set methods. fst (run_method nw self sub m) = None))
   \<and> (\<forall>ips. resolve nw (full_domain self sub) = Some ips
        \<longrightarrow> probe nw self sub [''dns'', ''http'']
              = (Some (full_domain self sub, ips, ''DNS''), [Resolve (full_domain self sub)]))
   \<and> check_subdomain nw now self sub methods
       = (record_result now (fst (probe nw self sub methods)) self, snd (probe nw self sub methods))
   \<and> (snd (fst (check_subdomain nw now self sub methods)) = Returns None
        \<longleftrightarrow> (\<forall>m \<in> set methods. fst (run_method nw self sub m) = None))
   \<and> ((\<forall>h \<in> set (output_handlers self). \<not> closed h)
        \<longrightarrow> snd (fst (check_subdomain nw now self sub methods))
              = Returns (map_option fst (fst (probe nw self sub methods))))"
proof (intro conjI allI impI)
  fix pre m post r
  assume "methods = pre @ m # post \<and> (\<forall>m' \<in> set pre. fst (run_method nw self sub m') = None)
        \<and> fst (run_method nw self sub m) = Some r"
  then show "probe nw self sub methods
            = (Some r, concat (map (\<lambda>m'. snd (run_method nw self sub m')) pre)
                         @ snd (run_method nw self sub m))"
    by (simp add: probe_hit)
next
  assume "\<forall>m \<in> set methods. fst (run_method nw self sub m) = None"
  then show "probe nw self sub methods
              = (None, concat (map (\<lambda>m. snd (run_method nw self sub m)) methods))"
    by (rule probe_miss)
next
  show "fst (probe nw self sub methods) = None
        \<longleftrightarrow> (\<forall>m \<in> set methods. fst (run_method nw self sub m) = None)"
    by (rule probe_None_iff)
next
  fix ips
  assume "resolve nw (full_domain self sub) = Some ips"
  then show "probe nw self sub [''dns'', ''http'']
              = (Some (full_domain self sub, ips, ''DNS''), [Resolve (full_domain self sub)])"
    by (simp add: probe_def dns_scan_def Let_def)
next
  show "check_subdomain nw now self sub methods
       = (record_result now (fst (probe nw self sub methods)) self, snd (probe nw self sub methods))"
    by (rule check_subdomain_probe)
next
  show "snd (fst (check_subdomain nw now self sub methods)) = Returns None
        \<longleftrightarrow> (\<forall>m \<in> set methods. fst (run_method nw self sub m) = None)"
    by (simp add: check_subdomain_probe record_result_returns_None probe_None_iff)
next
  assume "\<forall>h \<in> set (output_handlers self). \<not> closed h"
  then show "snd (fst (check_subdomain nw now self sub methods))
              = Returns (map_option fst (fst (probe nw self sub methods)))"
    by (simp add: check_subdomain_probe record_result_returns_open)
qed

lemma example_domain: "domain example_scanner = ''example.com''"
  by code_simp

lemma example_handlers: "output_handlers example_scanner = []"
  by (simp add: example_scanner_def SubdomainScanner_init_def)

lemma example_full_domain: "full_domain example_scanner sub = sub @ ''.example.com''"
  by (simp add: full_domain_def example_domain)

lemma example_run_cert: "run_method example_net example_scanner sub ''cert'' = (None, [])"
  by (simp add: run_method_def certificate_scan_def)

lemma example_run_dns_www:
  "run_method example_net example_scanner ''www'' ''dns''
     = (Some (''www.example.com'', [''93.184.216.34''], ''DNS''), [Resolve ''www.example.com''])"
  by (simp add: run_method_def dns_scan_def example_full_domain example_net_def Let_def)

lemma example_run_dns_api:
  "run_method example_net example_scanner ''api'' ''dns'' = (None, [Resolve ''api.example.com''])"
  by (simp add: run_method_def dns_scan_def example_full_domain example_net_def Let_def)

lemma example_run_http_api:
  "run_method example_net example_scanner ''api'' ''http''
     = (Some (''api.example.com'', [''http://api.example.com''], ''HTTP''),
        [Get ''https://api.example.com'', Get ''http://api.example.com''])"
  by (simp add: run_method_def http_scan_def example_full_domain example_net_def Let_def)

lemma example_run_dns_nope:
  "run_method example_net example_scanner ''nope'' ''dns'' = (None, [Resolve ''nope.example.com''])"
  by (simp add: run_method_def dns_scan_def example_full_domain example_net_def Let_def)

lemma example_run_http_nope:
  "run_method example_net example_scanner ''nope'' ''http''
     = (None, [Get ''https://nope.example.com'', Get ''http://nope.example.com''])"
  by (simp add: run_method_def http_scan_def example_full_domain example_net_def Let_def)

theorem check_subdomain_short_circuit_witness:
  "probe example_net example_scanner ''www'' [''cert'', ''dns'', ''http'']
     = (Some (''www.example.com'', [''93.184.216.34''], ''DNS''), [Resolve ''www.example.com''])
   \<and> probe example_net example_scanner ''api'' [''dns'', ''http'']
     = (Some (''api.example.com'', [''http://api.example.com''], ''HTTP''),
        [Resolve ''api.example.com'', Get ''https://api.example.com'', Get ''http://api.example.com''])
   \<and> probe example_net example_scanner ''nope'' [''dns'', ''http'']
     = (None, [Resolve ''nope.example.com'', Get ''https://nope.example.com'',
               Get ''http://nope.example.com''])
   \<and> probe example_net example_scanner ''www'' [''dns'', ''http'']
     = (Some (''www.example.com'', [''93.184.216.34''], ''DNS''), [Resolve ''www.example.com''])
   \<and> snd (fst (check_subdomain example_net ''t'' example_scanner ''nope'' [''dns'', ''http'']))
     = Returns None
   \<and> snd (fst (check_subdomain example_net ''t'' example_scanner ''api'' [''dns'', ''http'']))
     = Returns (Some ''api.example.com'')"
proof -
  have r: "resolve example_net (full_domain example_scanner ''www'') = Some [''93.184.216.34'']"
    by (simp add: example_full_domain example_net_def)
  note www = check_subdomain_short_circuit
    [of "[''cert'', ''dns'', ''http'']" example_net example_scanner "''www''" "''t''"]
  note api = check_subdomain_short_circuit
    [of "[''dns'', ''http'']" example_net example_scanner "''api''" "''t''"]
  note nope = check_subdomain_short_circuit
    [of "[''dns'', ''http'']" example_net example_scanner "''nope''" "''t''"]
  from www have 1: "probe example_net example_scanner ''www'' [''cert'', ''dns'', ''http'']
     = (Some (''www.example.com'', [''93.184.216.34''], ''DNS''), [Resolve ''www.example.com''])"
    by (elim conjE allE [where x = "[''cert'']"] allE [where x = "''dns''"] allE [where x = "[''http'']"]
        allE [where x = "(''www.example.com'', [''93.184.216.34''], ''DNS'')"])
      (simp add: example_run_cert example_run_dns_www)
  from api have 2: "probe example_net example_scanner ''api'' [''dns'', ''http'']
     = (Some (''api.example.com'', [''http://api.example.com''], ''HTTP''),
        [Resolve ''api.example.com'', Get ''https://api.example.com'', Get ''http://api.example.com''])"
    by (elim conjE allE [where x = "[''dns'']"] allE [where x = "''http''"] allE [where x = "[]"]
        allE [where x = "(''api.example.com'', [''http://api.example.com''], ''HTTP'')"])
      (simp add: example_run_dns_api example_run_http_api)
  from nope [THEN conjunct2, THEN conjunct1] have 3: "probe example_net example_scanner ''nope'' [''dns'', ''http'']
     = (None, [Resolve ''nope.example.com'', Get ''https://nope.example.com'',
               Get ''http://nope.example.com''])"
    by (simp add: example_run_dns_nope example_run_http_nope)
  from www [THEN conjunct2, THEN conjunct2, THEN conjunct2, THEN conjunct1] r have 4: "probe example_net example_scanner ''www'' [''dns'', ''http'']
     = (Some (''www.example.com'', [''93.184.216.34''], ''DNS''), [Resolve ''www.example.com''])"
    by (simp add: example_full_domain)
  from nope [THEN conjunct2, THEN conjunct2, THEN conjunct2, THEN conjunct2, THEN conjunct2,
      THEN conjunct1] have 5: "snd (fst (check_subdomain example_net ''t'' example_scanner ''nope'' [''dns'', ''http'']))
     = Returns None"
    by (simp add: example_run_dns_nope example_run_http_nope)
  from api [THEN conjunct2, THEN conjunct2, THEN conjunct2, THEN conjunct2, THEN conjunct2,
      THEN conjunct2] 2 have 6: "snd (fst (check_subdomain example_net ''t'' example_scanner ''api'' [''dns'', ''http'']))
     = Returns (Some ''api.example.com'')"
    by (simp add: example_handlers)
  from 1 2 3 4 5 6 show ?thesis by simp
qed

section \<open>The HTTP probe\<close>

text \<open>
  Claim C8.  \<open>http_scan\<close> requests \<open>https://\<close> and then \<open>http://\<close> followed by the label, a
  dot and the base domain.  When the first request succeeds it is the only request made
  and the record holds the \<open>https\<close> address; when it fails and the second succeeds, both
  requests were made in that order and the record holds the \<open>http\<close> address; when both
  fail, both were made and nothing is found.  The record has the method \<open>HTTP\<close>.  Nothing
  is found exactly when both requests fail, and a request succeeds exactly when it
  returns a status code below 400: a request that raises fails.
\<close>

theorem http_scan_schemes:
  "http_scan nw self sub =
     (if below_400 nw (''https://'' @ sub @ ''.'' @ domain self)
      then (Some (sub @ ''.'' @ domain self, [''https://'' @ sub @ ''.'' @ domain self], ''HTTP''),
            [Get (''https://'' @ sub @ ''.'' @ domain self)])
      else if below_400 nw (''http://'' @ sub @ ''.'' @ domain self)
      then (Some (sub @ ''.'' @ domain self, [''http://'' @ sub @ ''.'' @ domain self], ''HTTP''),
            [Get (''https://'' @ sub @ ''.'' @ domain self), Get (''http://'' @ sub @ ''.'' @ domain self)])
      else (None, [Get (''https://'' @ sub @ ''.'' @ domain self),
                   Get (''http://'' @ sub @ ''.'' @ domain self)]))
   \<and> (fst (http_scan nw self sub) = None
        \<longleftrightarrow> \<not> below_400 nw (''https://'' @ sub @ ''.'' @ domain self)
            \<and> \<not> below_400 nw (''http://'' @ sub @ ''.'' @ domain self))
   \<and> (below_400 nw url \<longleftrightarrow> (\<exists>status_code. requests_get nw url = Some status_code \<and> status_code < 400))
   \<and> (requests_get nw url = None \<longrightarrow> \<not> below_400 nw url)"
proof (intro conjI)
  show "below_400 nw url \<longleftrightarrow> (\<exists>status_code. requests_get nw url = Some status_code \<and> status_code < 400)"
    by (simp add: below_400_def split: option.splits)
qed (simp_all add: http_scan_def http_loop_two full_domain_def below_400_def del: http_loop.simps)

theorem http_scan_schemes_witness:
  "\<not> below_400 example_net ''https://api.example.com''
   \<and> below_400 example_net ''http://api.example.com''
   \<and> http_scan example_net example_scanner ''api''
        = (Some (''api.example.com'', [''http://api.example.com''], ''HTTP''),
           [Get ''https://api.example.com'', Get ''http://api.example.com''])
   \<and> requests_get example_net ''https://www.example.com'' = None
   \<and> \<not> below_400 example_net ''https://www.example.com''"
proof -
  have a: "\<not> below_400 example_net ''https://api.example.com''"
    and b: "below_400 example_net ''http://api.example.com''"
    and c: "requests_get example_net ''https://www.example.com'' = None"
    by (simp_all add: below_400_def example_net_def)
  from http_scan_schemes [of example_net example_scanner "''api''" "''https://www.example.com''"] a b c
  show ?thesis by (simp add: example_domain)
qed

section \<open>Method names\<close>

text \<open>
  Claim C10.  An entry of \<open>methods\<close> that is none of \<open>dns\<close>, \<open>http\<close> and \<open>cert\<close> is skipped:
  on its own it finds nothing and makes no call, and \<open>check_subdomain\<close> and its probe give
  for a list with such an entry, at any place, what they give for the list without it:
  the same record, the same calls, the same update.  A list of nothing but such an entry
  makes \<open>check_subdomain\<close> return \<open>None\<close> without a call; it does not raise.
\<close>

theorem check_subdomain_skips_unknown:
  "method \<notin> {''dns'', ''http'', ''cert''} \<Longrightarrow>
   run_method nw self sub method = (None, [])
   \<and> probe nw self sub (pre @ method # post) = probe nw self sub (pre @ post)
   \<and> check_subdomain nw now self sub (pre @ method # post) = check_subdomain nw now self sub (pre @ post)
   \<and> probe nw self sub [method] = (None, [])
   \<and> snd (fst (check_subdomain nw now self sub [method])) = Returns None"
proof -
  assume h: "method \<notin> {''dns'', ''http'', ''cert''}"
  then have skip: "methods_loop nw self sub None (pre @ method # post)
      = methods_loop nw self sub None (pre @ post)" for pre post
    by (simp add: methods_loop_skip del: methods_loop.simps)
  have one: "probe nw self sub [method] = (None, [])"
    using h by (simp add: probe_def)
  show ?thesis
    using h
    by (simp add: check_subdomain_def probe_def skip run_method_def one [unfolded probe_def]
        record_result_def Let_def del: methods_loop.simps)
qed

theorem check_subdomain_skips_unknown_witness:
  "''whois'' \<notin> {''dns'', ''http'', ''cert''}
   \<and> probe example_net example_scanner ''www'' [''cert'', ''whois'', ''dns'']
       = (Some (''www.example.com'', [''93.184.216.34''], ''DNS''), [Resolve ''www.example.com''])
   \<and> check_subdomain example_net ''t'' example_scanner ''www'' [''cert'', ''whois'', ''dns'']
       = check_subdomain example_net ''t'' example_scanner ''www'' [''cert'', ''dns'']
   \<and> snd (fst (check_subdomain example_net ''t'' example_scanner ''www'' [''whois''])) = Returns None"
proof -
  have h: "''whois'' \<notin> {''dns'', ''http'', ''cert''}" by simp
  have a: "probe example_net example_scanner ''www'' [''cert'', ''dns'']
       = (Some (''www.example.com'', [''93.184.216.34''], ''DNS''), [Resolve ''www.example.com''])"
    using probe_hit [of "[''cert'']" example_net example_scanner "''www''" "''dns''" _ "[]"]
    by (simp add: example_run_cert example_run_dns_www)
  from check_subdomain_skips_unknown [OF h, of example_net example_scanner "''www''" "[''cert'']" "[''dns'']" "''t''"]
    a h
  show ?thesis by simp
qed

section \<open>Counting and collecting\<close>

lemma record_result_count:
  "checked_count (fst (record_result now result self)) = checked_count self + 1"
  by (simp add: record_result_def Let_def split_def split: option.splits)

lemma record_result_domain:
  "domain (fst (record_result now result self)) = domain self"
  by (simp add: record_result_def Let_def split_def split: option.splits)

lemma record_result_found:
  "found_subdomains (fst (record_result now result self))
     = (case result of Some r \<Rightarrow> insert (fst r) (found_subdomains self) | None \<Rightarrow> found_subdomains self)"
  by (simp add: record_result_def Let_def split_def split: option.splits)

lemma probe_domain_only:
  assumes d: "domain self' = domain self"
  shows "probe nw self' sub ms = probe nw self sub ms"
proof -
  have fd: "full_domain self' s = full_domain self s" for s
    by (simp add: full_domain_def d)
  have a: "dns_scan nw self' sub = dns_scan nw self sub"
    by (simp add: dns_scan_def fd)
  have b: "http_scan nw self' sub = http_scan nw self sub"
    by (simp add: http_scan_def fd del: http_loop.simps)
  have c: "certificate_scan nw self' sub = certificate_scan nw self sub"
    by (simp add: certificate_scan_def)
  have "methods_loop nw self' sub r ms = methods_loop nw self sub r ms" for r
  proof (induction ms arbitrary: r)
    case Nil
    show ?case by simp
  next
    case (Cons m ms)
    show ?case by (simp add: a b c Cons.IH split: prod.splits)
  qed
  then show ?thesis by (simp add: probe_def)
qed

lemma hits_domain_only:
  assumes d: "domain self' = domain self"
  shows "hits nw self' ms schedule = hits nw self ms schedule"
  by (induction schedule) (auto simp: probe_domain_only [OF d] split: option.splits)

lemma hits_append:
  "hits nw self ms (xs @ ys) = hits nw self ms xs @ hits nw self ms ys"
  by (induction xs) (auto split: option.splits)

lemma check_subdomain_state:
  "fst (fst (check_subdomain nw now self sub ms)) = fst (record_result now (fst (probe nw self sub ms)) self)"
  by (simp add: check_subdomain_probe)

lemma run_tasks_Cons:
  "fst (run_tasks nw ms ((sub, now) # rest) self)
     = fst (run_tasks nw ms rest (fst (fst (check_subdomain nw now self sub ms))))"
  by (simp add: Let_def split_def)

lemma run_tasks_count:
  "checked_count (fst (run_tasks nw ms schedule self)) = checked_count self + int (length schedule)"
proof (induction schedule arbitrary: self)
  case Nil
  show ?case by simp
next
  case (Cons t schedule)
  obtain sub now where t: "t = (sub, now)" by (cases t)
  show ?case
    unfolding t run_tasks_Cons Cons.IH
    by (simp add: check_subdomain_state record_result_count)
qed

lemma run_tasks_domain:
  "domain (fst (run_tasks nw ms schedule self)) = domain self"
proof (induction schedule arbitrary: self)
  case Nil
  show ?case by simp
next
  case (Cons t schedule)
  obtain sub now where t: "t = (sub, now)" by (cases t)
  show ?case
    unfolding t run_tasks_Cons Cons.IH
    by (simp add: check_subdomain_state record_result_domain)
qed

lemma run_tasks_found:
  "found_subdomains (fst (run_tasks nw ms schedule self))
     = found_subdomains self \<union> fst ` set (hits nw self ms schedule)"
proof (induction schedule arbitrary: self)
  case Nil
  show ?case by simp
next
  case (Cons t schedule)
  obtain sub now where t: "t = (sub, now)" by (cases t)
  let ?s1 = "fst (fst (check_subdomain nw now self sub ms))"
  have d: "domain ?s1 = domain self"
    by (simp add: check_subdomain_state record_result_domain)
  have h: "hits nw ?s1 ms schedule = hits nw self ms schedule"
    by (rule hits_domain_only [OF d])
  have f: "found_subdomains ?s1
      = (case fst (probe nw self sub ms) of
           Some r \<Rightarrow> insert (fst r) (found_subdomains self) | None \<Rightarrow> found_subdomains self)"
    by (simp add: check_subdomain_state record_result_found)
  show ?case
  proof (cases "fst (probe nw self sub ms)")
    case None
    then show ?thesis unfolding t run_tasks_Cons Cons.IH h f by simp
  next
    case (Some r)
    obtain dname ips mth where r: "r = (dname, ips, mth)" by (cases r)
    show ?thesis unfolding t run_tasks_Cons Cons.IH h f by (simp add: Some r)
  qed
qed

lemma as_completed_length: "as_completed submitted schedule \<Longrightarrow> length schedule = length submitted"
proof -
  assume "as_completed submitted schedule"
  then have "size (mset (map fst schedule)) = size (mset submitted)"
    by (simp add: as_completed_def)
  then show ?thesis by simp
qed

lemma load_keeps_state:
  "checked_count (fst (load_subdomains_from_file fs self path)) = checked_count self"
  "found_subdomains (fst (load_subdomains_from_file fs self path)) = found_subdomains self"
  "domain (fst (load_subdomains_from_file fs self path)) = domain self"
  "output_handlers (fst (load_subdomains_from_file fs self path)) = output_handlers self"
  by (simp_all add: load_subdomains_from_file_def Let_def split: file_read.splits)

lemma init_state:
  "checked_count (SubdomainScanner_init d out banner start) = 0"
  "found_subdomains (SubdomainScanner_init d out banner start) = {}"
  "domain (SubdomainScanner_init d out banner start) = py_strip (py_lower d)"
  by (simp_all add: SubdomainScanner_init_def)

lemma read_lines_labels: "read_lines ls S = S \<union> wordlist_labels ls"
proof (induction ls arbitrary: S)
  case Nil
  show ?case by (simp add: wordlist_labels_def)
next
  case (Cons l ls)
  have w: "wordlist_labels (l # ls)
      = (if py_strip l \<noteq> [] \<and> \<not> startswith (py_strip l) ''#''
         then insert (py_strip l) (wordlist_labels ls) else wordlist_labels ls)"
    by (simp add: wordlist_labels_def)
  show ?case
    unfolding read_lines.simps Let_def Cons.IH w by (simp del: read_lines.simps)
qed

lemma example_words_labels:
  "filter (\<lambda>s. s \<noteq> [] \<and> \<not> startswith s ''#'')
     (map py_strip [''www\<newline>'', ''  api  \<newline>'', ''# comment\<newline>'', ''\<newline>'', ''www\<newline>'', ''  #x\<newline>''])
   = [''www'', ''api'', ''www'']"
  by code_simp

lemma example_words:
  "snd (load_subdomains_from_file example_files self ''words.txt'') = {''www'', ''api''}"
proof -
  have f: "example_files ''words.txt''
      = Lines [''www\<newline>'', ''  api  \<newline>'', ''# comment\<newline>'', ''\<newline>'', ''www\<newline>'', ''  #x\<newline>'']"
    by (simp add: example_files_def)
  have w: "wordlist_labels [''www\<newline>'', ''  api  \<newline>'', ''# comment\<newline>'', ''\<newline>'', ''www\<newline>'', ''  #x\<newline>'']
      = set [''www'', ''api'', ''www'']"
    unfolding wordlist_labels_def example_words_labels ..
  have s: "set [''www'', ''api'', ''www''] = {''www'', ''api''}"
    by auto
  show ?thesis
    unfolding load_subdomains_from_file_def f file_read.case Let_def read_lines_labels w s
    by simp
qed

lemma example_probe_www:
  "probe example_net example_scanner ''www'' [''dns'', ''http'']
     = (Some (''www.example.com'', [''93.184.216.34''], ''DNS''), [Resolve ''www.example.com''])"
  by (simp add: probe_def dns_scan_def Let_def example_full_domain example_net_def)

lemma example_probe_api:
  "probe example_net example_scanner ''api'' [''dns'', ''http'']
     = (Some (''api.example.com'', [''http://api.example.com''], ''HTTP''),
        [Resolve ''api.example.com'', Get ''https://api.example.com'', Get ''http://api.example.com''])"
  using probe_hit [of "[''dns'']" example_net example_scanner "''api''" "''http''" _ "[]"]
  by (simp add: example_run_dns_api example_run_http_api)

lemma example_probe_nope:
  "probe example_net example_scanner ''nope'' [''dns'', ''http'']
     = (None, [Resolve ''nope.example.com'', Get ''https://nope.example.com'',
               Get ''http://nope.example.com''])"
  using probe_miss [of "[''dns'', ''http'']" example_net example_scanner "''nope''"]
  by (simp add: example_run_dns_nope example_run_http_nope)

text \<open>
  Claim C4.  One call of \<open>check_subdomain\<close> adds exactly one to \<open>checked_count\<close>, whatever
  the probe finds and whether or not a handler raises.  A run in which every submitted
  task completes adds the number of submitted tasks.  For a new scanner, \<open>common_scan\<close>
  ends with \<open>checked_count\<close> equal to the number of entries of the built-in list, and
  \<open>scan_with_wordlist\<close>, which submits one task for each element of the set loaded from
  the file, adds the number of elements of that set.
\<close>

theorem checked_count_counts_candidates:
  "checked_count (fst (fst (check_subdomain nw now self sub ms))) = checked_count self + 1
   \<and> (as_completed submitted schedule
        \<longrightarrow> checked_count (fst (run_tasks nw ms schedule self))
              = checked_count self + int (length submitted))
   \<and> (as_completed common_subdomains schedule
        \<longrightarrow> checked_count (fst (common_scan nw (SubdomainScanner_init d out banner start) ms schedule))
              = int (length common_subdomains))
   \<and> (py_list_of_set (snd (load_subdomains_from_file fs self path)) submitted
        \<and> as_completed submitted schedule
        \<longrightarrow> checked_count (fst (scan_with_wordlist fs nw self path ms schedule))
              = checked_count self + int (card (snd (load_subdomains_from_file fs self path))))"
proof (intro conjI impI)
  show "checked_count (fst (fst (check_subdomain nw now self sub ms))) = checked_count self + 1"
    by (simp add: check_subdomain_state record_result_count)
next
  assume "as_completed submitted schedule"
  then show "checked_count (fst (run_tasks nw ms schedule self))
              = checked_count self + int (length submitted)"
    by (simp add: run_tasks_count as_completed_length)
next
  assume "as_completed common_subdomains schedule"
  then show "checked_count (fst (common_scan nw (SubdomainScanner_init d out banner start) ms schedule))
              = int (length common_subdomains)"
    by (simp add: common_scan_def run_tasks_count as_completed_length init_state)
next
  let ?S = "snd (load_subdomains_from_file fs self path)"
  assume h: "py_list_of_set ?S submitted \<and> as_completed submitted schedule"
  then have len: "length schedule = length submitted" and d: "distinct submitted"
    and s: "set submitted = ?S"
    by (simp_all add: as_completed_length py_list_of_set_def)
  have c: "card ?S = length submitted"
    using d s distinct_card by fastforce
  show "checked_count (fst (scan_with_wordlist fs nw self path ms schedule))
              = checked_count self + int (card ?S)"
  proof (cases "?S = {}")
    case True
    then show ?thesis
      by (simp add: scan_with_wordlist_def split_def load_keeps_state)
  next
    case False
    then have "fst (scan_with_wordlist fs nw self path ms schedule)
        = fst (run_tasks nw ms schedule (fst (load_subdomains_from_file fs self path)))"
      by (simp add: scan_with_wordlist_def split_def)
    then show ?thesis
      by (simp add: run_tasks_count load_keeps_state len c)
  qed
qed

theorem checked_count_counts_candidates_witness:
  "as_completed [''www'', ''api''] [(''api'', ''t1''), (''www'', ''t2'')]
   \<and> as_completed common_subdomains (map (\<lambda>s. (s, ''t'')) common_subdomains)
   \<and> py_list_of_set (snd (load_subdomains_from_file example_files example_scanner ''words.txt''))
        [''www'', ''api'']
   \<and> checked_count (fst (fst (check_subdomain example_net ''t'' example_scanner ''nope'' [''dns'']))) = 1
   \<and> checked_count (fst (run_tasks example_net [''dns''] [(''api'', ''t1''), (''www'', ''t2'')] example_scanner)) = 2
   \<and> checked_count (fst (common_scan example_net (SubdomainScanner_init ''example.com'' None [] ''t0'')
        [''dns''] (map (\<lambda>s. (s, ''t'')) common_subdomains))) = 90
   \<and> checked_count (fst (scan_with_wordlist example_files example_net example_scanner ''words.txt''
        [''dns''] [(''api'', ''t1''), (''www'', ''t2'')])) = 2"
proof -
  have a: "as_completed [''www'', ''api''] [(''api'', ''t1''), (''www'', ''t2'')]"
    by (simp add: as_completed_def add_mset_commute)
  have b: "as_completed common_subdomains (map (\<lambda>s. (s, ''t'')) common_subdomains)"
    by (simp add: as_completed_def comp_def)
  have c: "py_list_of_set (snd (load_subdomains_from_file example_files example_scanner ''words.txt''))
        [''www'', ''api'']"
    by (simp add: example_words py_list_of_set_def)
  have z: "checked_count example_scanner = 0"
    by (simp add: example_scanner_def init_state)
  have n: "length common_subdomains = 90"
    by (simp add: common_subdomains_def)
  have k: "card {''www'', ''api''} = (2::nat)"
    by simp
  from checked_count_counts_candidates [of example_net "''t''" example_scanner "''nope''" "[''dns'']"
      "[''www'', ''api'']" "[(''api'', ''t1''), (''www'', ''t2'')]" "''example.com''" None "[]" "''t0''"
      example_files "''words.txt''"]
    checked_count_counts_candidates [of example_net "''t''" example_scanner "''nope''" "[''dns'']"
      common_subdomains "map (\<lambda>s. (s, ''t'')) common_subdomains" "''example.com''" None "[]" "''t0''"
      example_files "''words.txt''"]
    a b c z n k
  show ?thesis by (simp add: example_words)
qed

text \<open>
  Claim C5.  \<open>found_subdomains\<close> is a set, and the update of \<open>check_subdomain\<close> inserts the
  domain of the record into it: inserting a domain that is already there leaves the set
  as it was, and an update without a record leaves it as it was.  After any sequence of
  completed probes the set holds what it held before together with the domains of the
  records found, however often a domain was found; probing every candidate a second
  time gives the same set.  Every listing of the set names each domain once.
\<close>

theorem found_subdomains_idempotent:
  "found_subdomains (fst (record_result now (Some (dname, ips, mth)) self))
     = insert dname (found_subdomains self)
   \<and> (dname \<in> found_subdomains self
        \<longrightarrow> found_subdomains (fst (record_result now (Some (dname, ips, mth)) self))
              = found_subdomains self)
   \<and> found_subdomains (fst (record_result now None self)) = found_subdomains self
   \<and> found_subdomains (fst (run_tasks nw ms schedule self))
       = found_subdomains self \<union> fst ` set (hits nw self ms schedule)
   \<and> found_subdomains (fst (run_tasks nw ms (schedule @ schedule) self))
       = found_subdomains (fst (run_tasks nw ms schedule self))
   \<and> (py_list_of_set (found_subdomains (fst (run_tasks nw ms schedule self))) xs
        \<longrightarrow> distinct xs \<and> length xs = card (found_subdomains (fst (run_tasks nw ms schedule self))))"
proof (intro conjI impI)
  show "found_subdomains (fst (record_result now (Some (dname, ips, mth)) self))
     = insert dname (found_subdomains self)"
    by (simp add: record_result_found)
next
  assume "dname \<in> found_subdomains self"
  then show "found_subdomains (fst (record_result now (Some (dname, ips, mth)) self))
              = found_subdomains self"
    by (simp add: record_result_found insert_absorb)
next
  show "found_subdomains (fst (record_result now None self)) = found_subdomains self"
    by (simp add: record_result_found)
next
  show "found_subdomains (fst (run_tasks nw ms schedule self))
       = found_subdomains self \<union> fst ` set (hits nw self ms schedule)"
    by (rule run_tasks_found)
next
  show "found_subdomains (fst (run_tasks nw ms (schedule @ schedule) self))
       = found_subdomains (fst (run_tasks nw ms schedule self))"
    by (simp add: run_tasks_found hits_append)
next
  assume h: "py_list_of_set (found_subdomains (fst (run_tasks nw ms schedule self))) xs"
  then show "distinct xs"
    by (simp add: py_list_of_set_def)
  from h show "length xs = card (found_subdomains (fst (run_tasks nw ms schedule self)))"
    using distinct_card [of xs] by (simp add: py_list_of_set_def)
qed

theorem found_subdomains_idempotent_witness:
  "''www.example.com'' \<in> found_subdomains
      (fst (record_result ''t1'' (Some (''www.example.com'', [''93.184.216.34''], ''DNS'')) example_scanner))
   \<and> found_subdomains
        (fst (record_result ''t2'' (Some (''www.example.com'', [''93.184.216.34''], ''DNS''))
           (fst (record_result ''t1'' (Some (''www.example.com'', [''93.184.216.34''], ''DNS''))
              example_scanner))))
      = {''www.example.com''}
   \<and> found_subdomains
        (fst (run_tasks example_net [''dns'', ''http'']
           [(''www'', ''t1''), (''nope'', ''t2''), (''www'', ''t3'')] example_scanner))
      = {''www.example.com''}
   \<and> py_list_of_set
        (found_subdomains
           (fst (run_tasks example_net [''dns'', ''http'']
              [(''www'', ''t1''), (''nope'', ''t2''), (''www'', ''t3'')] example_scanner)))
        [''www.example.com'']"
proof -
  let ?r = "(''www.example.com'', [''93.184.216.34''], ''DNS'')"
  let ?s1 = "fst (record_result ''t1'' (Some ?r) example_scanner)"
  let ?sched = "[(''www'', ''t1''), (''nope'', ''t2''), (''www'', ''t3'')]"
  have e: "found_subdomains example_scanner = {}"
    by (simp add: example_scanner_def init_state)
  have hs: "hits example_net example_scanner [''dns'', ''http''] ?sched
      = [(''www.example.com'', [''93.184.216.34''], ''DNS'', ''t1''),
         (''www.example.com'', [''93.184.216.34''], ''DNS'', ''t3'')]"
    by (simp add: example_probe_www example_probe_nope)
  note a = found_subdomains_idempotent
    [of "''t1''" "''www.example.com''" "[''93.184.216.34'']" "''DNS''" example_scanner
        example_net "[''dns'', ''http'']" ?sched "[''www.example.com'']"]
  note b = found_subdomains_idempotent
    [of "''t2''" "''www.example.com''" "[''93.184.216.34'']" "''DNS''" ?s1
        example_net "[''dns'', ''http'']" ?sched "[''www.example.com'']"]
  from a have 1: "found_subdomains ?s1 = {''www.example.com''}"
    by (simp add: e)
  from b [THEN conjunct2, THEN conjunct1] 1
  have 2: "found_subdomains (fst (record_result ''t2'' (Some ?r) ?s1)) = {''www.example.com''}"
    by simp
  from a [THEN conjunct2, THEN conjunct2, THEN conjunct2, THEN conjunct1]
  have 3: "found_subdomains (fst (run_tasks example_net [''dns'', ''http''] ?sched example_scanner))
      = {''www.example.com''}"
    unfolding hs e by (simp del: run_tasks.simps)
  from 1 2 3 show ?thesis by (simp add: py_list_of_set_def)
qed

section \<open>Loading a wordlist\<close>

text \<open>
  Claim C6.  For a file that can be read, \<open>load_subdomains_from_file\<close> returns the set
  of its lines with surrounding whitespace removed, without the lines that are then
  empty or begin with \<open>#\<close>, and reports how many labels that set holds; being a set, its
  listing names each label once.  For a file that does not exist, and for one whose
  reading fails, it returns the empty collection and reports the error; the scan with
  that wordlist then returns without a probe, with the counter and the found set as
  they were.
\<close>

theorem load_subdomains_from_file_labels:
  "(fs path = Lines ls
      \<longrightarrow> load_subdomains_from_file fs self path
            = (self\<lparr>printed := printed self @ [Loaded (card (wordlist_labels ls))]\<rparr>,
               wordlist_labels ls))
   \<and> (fs path = NoSuchFile
      \<longrightarrow> load_subdomains_from_file fs self path
            = (self\<lparr>printed := printed self @ [FileMissing path]\<rparr>, {})
          \<and> scan_with_wordlist fs nw self path ms schedule
            = (self\<lparr>printed := printed self @ [FileMissing path]\<rparr>, []))
   \<and> (fs path = Unreadable e
      \<longrightarrow> load_subdomains_from_file fs self path
            = (self\<lparr>printed := printed self @ [ReadFailed e]\<rparr>, {})
          \<and> scan_with_wordlist fs nw self path ms schedule
            = (self\<lparr>printed := printed self @ [ReadFailed e]\<rparr>, []))
   \<and> (py_list_of_set (snd (load_subdomains_from_file fs self path)) xs
      \<longrightarrow> distinct xs \<and> set xs = snd (load_subdomains_from_file fs self path))
   \<and> (snd (load_subdomains_from_file fs self path) = {}
      \<longrightarrow> checked_count (fst (scan_with_wordlist fs nw self path ms schedule)) = checked_count self
          \<and> found_subdomains (fst (scan_with_wordlist fs nw self path ms schedule)) = found_subdomains self
          \<and> snd (scan_with_wordlist fs nw self path ms schedule) = [])"
proof (intro conjI impI)
  assume "fs path = Lines ls"
  then show "load_subdomains_from_file fs self path
            = (self\<lparr>printed := printed self @ [Loaded (card (wordlist_labels ls))]\<rparr>,
               wordlist_labels ls)"
    by (simp add: load_subdomains_from_file_def Let_def read_lines_labels del: read_lines.simps)
next
  assume h: "fs path = NoSuchFile"
  then show "load_subdomains_from_file fs self path
            = (self\<lparr>printed := printed self @ [FileMissing path]\<rparr>, {})"
    by (simp add: load_subdomains_from_file_def)
  from h show "scan_with_wordlist fs nw self path ms schedule
            = (self\<lparr>printed := printed self @ [FileMissing path]\<rparr>, [])"
    by (simp add: scan_with_wordlist_def load_subdomains_from_file_def)
next
  assume h: "fs path = Unreadable e"
  then show "load_subdomains_from_file fs self path
            = (self\<lparr>printed := printed self @ [ReadFailed e]\<rparr>, {})"
    by (simp add: load_subdomains_from_file_def)
  from h show "scan_with_wordlist fs nw self path ms schedule
            = (self\<lparr>printed := printed self @ [ReadFailed e]\<rparr>, [])"
    by (simp add: scan_with_wordlist_def load_subdomains_from_file_def)
next
  assume h: "py_list_of_set (snd (load_subdomains_from_file fs self path)) xs"
  then show "distinct xs" and "set xs = snd (load_subdomains_from_file fs self path)"
    by (simp_all add: py_list_of_set_def)
next
  assume h: "snd (load_subdomains_from_file fs self path) = {}"
  then have s: "scan_with_wordlist fs nw self path ms schedule
      = (fst (load_subdomains_from_file fs self path), [])"
    by (simp add: scan_with_wordlist_def split_def)
  show "checked_count (fst (scan_with_wordlist fs nw self path ms schedule)) = checked_count self"
    and "found_subdomains (fst (scan_with_wordlist fs nw self path ms schedule)) = found_subdomains self"
    and "snd (scan_with_wordlist fs nw self path ms schedule) = []"
    by (simp_all add: s load_keeps_state)
qed

theorem load_subdomains_from_file_labels_witness:
  "example_files ''words.txt''
     = Lines [''www\<newline>'', ''  api  \<newline>'', ''# comment\<newline>'', ''\<newline>'', ''www\<newline>'', ''  #x\<newline>'']
   \<and> snd (load_subdomains_from_file example_files example_scanner ''words.txt'') = {''www'', ''api''}
   \<and> printed (fst (load_subdomains_from_file example_files example_scanner ''words.txt'')) = [Loaded 2]
   \<and> example_files ''missing.txt'' = NoSuchFile
   \<and> snd (load_subdomains_from_file example_files example_scanner ''missing.txt'') = {}
   \<and> printed (fst (scan_with_wordlist example_files example_net example_scanner ''missing.txt''
        [''dns''] [])) = [FileMissing ''missing.txt'']
   \<and> checked_count (fst (scan_with_wordlist example_files example_net example_scanner ''missing.txt''
        [''dns''] [])) = 0
   \<and> example_files ''locked.txt'' = Unreadable ''Permission denied''
   \<and> scan_with_wordlist example_files example_net example_scanner ''locked.txt'' [''dns''] []
       = (example_scanner\<lparr>printed := [ReadFailed ''Permission denied'']\<rparr>, [])
   \<and> py_list_of_set (snd (load_subdomains_from_file example_files example_scanner ''missing.txt'')) []"
proof -
  let ?ls = "[''www\<newline>'', ''  api  \<newline>'', ''# comment\<newline>'', ''\<newline>'', ''www\<newline>'', ''  #x\<newline>'']"
  have f: "example_files ''words.txt'' = Lines ?ls"
    and m: "example_files ''missing.txt'' = NoSuchFile"
    and l: "example_files ''locked.txt'' = Unreadable ''Permission denied''"
    by (simp_all add: example_files_def)
  have w: "wordlist_labels ?ls = {''www'', ''api''}"
    unfolding wordlist_labels_def example_words_labels by auto
  have p: "printed example_scanner = []" and z: "checked_count example_scanner = 0"
    by (simp_all add: example_scanner_def SubdomainScanner_init_def)
  note a = load_subdomains_from_file_labels
    [of example_files "''words.txt''" ?ls example_scanner example_net "[''dns'']" "[]" "''e''" "[]"]
  note b = load_subdomains_from_file_labels
    [of example_files "''missing.txt''" ?ls example_scanner example_net "[''dns'']" "[]" "''e''" "[]"]
  note c = load_subdomains_from_file_labels
    [of example_files "''locked.txt''" ?ls example_scanner example_net "[''dns'']" "[]"
        "''Permission denied''" "[]"]
  from a [THEN conjunct1] f w p
  have 1: "snd (load_subdomains_from_file example_files example_scanner ''words.txt'') = {''www'', ''api''}
      \<and> printed (fst (load_subdomains_from_file example_files example_scanner ''words.txt'')) = [Loaded 2]"
    by simp
  from b [THEN conjunct2, THEN conjunct1] m p z
  have 2: "snd (load_subdomains_from_file example_files example_scanner ''missing.txt'') = {}
      \<and> printed (fst (scan_with_wordlist example_files example_net example_scanner ''missing.txt''
            [''dns''] [])) = [FileMissing ''missing.txt'']
      \<and> checked_count (fst (scan_with_wordlist example_files example_net example_scanner ''missing.txt''
            [''dns''] [])) = 0"
    by simp
  from c [THEN conjunct2, THEN conjunct2, THEN conjunct1] l p
  have 3: "scan_with_wordlist example_files example_net example_scanner ''locked.txt'' [''dns''] []
       = (example_scanner\<lparr>printed := [ReadFailed ''Permission denied'']\<rparr>, [])"
    by simp
  from 1 2 3 f m l show ?thesis by (simp add: py_list_of_set_def)
qed

section \<open>The base domain\<close>

lemma py_isspace_lower_char: "py_isspace (lower_char c) = py_isspace c"
proof -
  have n: "(of_char c :: nat) < 256" by simp
  have "of_char (char_of (of_char c + 32 :: nat)) = (of_char c + 32 :: nat)"
    if "(of_char c :: nat) \<le> 222"
    using that by simp
  then show ?thesis
    by (auto simp: py_isspace_def lower_char_def Let_def)
qed

lemma dropWhile_py_lower:
  "dropWhile py_isspace (map lower_char s) = map lower_char (dropWhile py_isspace s)"
  by (induction s) (simp_all add: py_isspace_lower_char)

lemma py_strip_lower: "py_strip (py_lower d) = py_lower (py_strip d)"
  by (simp add: py_strip_def py_lower_def dropWhile_py_lower rev_map)

text \<open>
  Claim C9.  The scanner keeps the base domain lowercased and stripped of surrounding
  whitespace; lowercasing and stripping give the same in either order.  No scan changes
  it.  The name under test is the label as given, a dot, and that base domain: it is the
  name \<open>dns_scan\<close> looks up and the host of the addresses \<open>http_scan\<close> requests, and the
  label is not lowercased or changed in any other way.
\<close>

theorem domain_normalised:
  "domain (SubdomainScanner_init d out banner start) = py_lower (py_strip d)
   \<and> py_lower (py_strip d) = py_strip (py_lower d)
   \<and> domain (fst (run_tasks nw ms schedule (SubdomainScanner_init d out banner start)))
       = py_lower (py_strip d)
   \<and> full_domain (SubdomainScanner_init d out banner start) label = label @ ''.'' @ py_lower (py_strip d)
   \<and> snd (dns_scan nw (SubdomainScanner_init d out banner start) label)
       = [Resolve (label @ ''.'' @ py_lower (py_strip d))]
   \<and> hd (snd (http_scan nw (SubdomainScanner_init d out banner start) label))
       = Get (''https://'' @ label @ ''.'' @ py_lower (py_strip d))
   \<and> set (snd (http_scan nw (SubdomainScanner_init d out banner start) label))
       \<subseteq> {Get (''https://'' @ label @ ''.'' @ py_lower (py_strip d)),
           Get (''http://'' @ label @ ''.'' @ py_lower (py_strip d))}"
proof -
  let ?s = "SubdomainScanner_init d out banner start"
  have dm: "domain ?s = py_lower (py_strip d)"
    by (simp add: init_state py_strip_lower)
  have fd: "full_domain ?s label = label @ ''.'' @ py_lower (py_strip d)"
    by (simp add: full_domain_def dm)
  have dns: "snd (dns_scan nw ?s label) = [Resolve (label @ ''.'' @ py_lower (py_strip d))]"
    by (simp add: dns_scan_def Let_def fd)
  have http: "hd (snd (http_scan nw ?s label)) = Get (''https://'' @ label @ ''.'' @ py_lower (py_strip d))"
    "set (snd (http_scan nw ?s label))
       \<subseteq> {Get (''https://'' @ label @ ''.'' @ py_lower (py_strip d)),
           Get (''http://'' @ label @ ''.'' @ py_lower (py_strip d))}"
    by (simp_all add: http_scan_def http_loop_two fd del: http_loop.simps)
  show ?thesis
    using dm fd dns http by (simp add: run_tasks_domain py_strip_lower)
qed

theorem domain_normalised_witness:
  "domain (SubdomainScanner_init ''  Example.COM '' None [] ''2024-05-01T10:00:00'') = ''example.com''
   \<and> full_domain (SubdomainScanner_init ''  Example.COM '' None [] ''2024-05-01T10:00:00'') ''WWW''
       = ''WWW.example.com''
   \<and> snd (dns_scan example_net (SubdomainScanner_init ''  Example.COM '' None [] ''2024-05-01T10:00:00'')
        ''WWW'') = [Resolve ''WWW.example.com'']"
proof -
  have l: "py_lower (py_strip ''  Example.COM '') = ''example.com''"
    by code_simp
  from domain_normalised [of "''  Example.COM ''" None "[]" "''2024-05-01T10:00:00''" example_net "[]" "[]" "''WWW''"] l
  show ?thesis by simp
qed

section \<open>The CSV file\<close>

lemma csv_path:
  assumes "endswith path ''.csv''"
  shows "path \<noteq> []" and "\<not> endswith path ''.json''"
proof -
  from assms show "path \<noteq> []"
    by (auto simp: endswith_def)
  from assms show "\<not> endswith path ''.json''"
    by (cases "rev path") (auto simp: endswith_def)
qed

lemma csv_row_fields:
  "csv_row (dname, ips, mth, stamp)
     = csv_quote dname @ '','' @ csv_quote (py_join '';'' ips) @ '','' @ csv_quote mth @ '',''
         @ csv_quote stamp @ ''\<newline>''"
  by (simp add: csv_row_def)

lemma handler_write_csv:
  "hkind h = CSVOutput \<Longrightarrow> \<not> closed h \<Longrightarrow>
   handler_write now dname ips mth h = Some (h\<lparr>content := content h @ csv_row (dname, ips, mth, now)\<rparr>)"
  by (simp add: handler_write_def file_write_def csv_row_def csv_quote_def Let_def)

lemma write_all_csv:
  "hkind h = CSVOutput \<Longrightarrow> \<not> closed h \<Longrightarrow>
   write_all rs h = Some (h\<lparr>content := content h @ concat (map csv_row rs)\<rparr>)"
proof (induction rs arbitrary: h)
  case Nil
  show ?case by simp
next
  case (Cons r rs)
  obtain dname ips mth now where r: "r = (dname, ips, mth, now)" by (cases r)
  let ?h = "h\<lparr>content := content h @ csv_row (dname, ips, mth, now)\<rparr>"
  have "write_all rs ?h = Some (?h\<lparr>content := content ?h @ concat (map csv_row rs)\<rparr>)"
    by (rule Cons.IH) (simp_all add: Cons.prems)
  then show ?case
    by (simp add: r handler_write_csv Cons.prems)
qed

lemma record_result_handlers:
  "output_handlers (fst (record_result now result self))
     = (case result of
          Some (dname, ips, mth) \<Rightarrow> fst (write_handlers now dname ips mth (output_handlers self))
        | None \<Rightarrow> output_handlers self)"
  by (simp add: record_result_def Let_def split_def split: option.splits)

lemma run_tasks_csv:
  "output_handlers self = [h] \<Longrightarrow> hkind h = CSVOutput \<Longrightarrow> \<not> closed h \<Longrightarrow>
   output_handlers (fst (run_tasks nw ms schedule self))
     = [h\<lparr>content := content h @ concat (map csv_row (hits nw self ms schedule))\<rparr>]"
proof (induction schedule arbitrary: self h)
  case Nil
  then show ?case by simp
next
  case (Cons t schedule)
  obtain sub now where t: "t = (sub, now)" by (cases t)
  let ?s1 = "fst (fst (check_subdomain nw now self sub ms))"
  have d: "domain ?s1 = domain self"
    by (simp add: check_subdomain_state record_result_domain)
  have hd: "hits nw ?s1 ms schedule = hits nw self ms schedule"
    by (rule hits_domain_only [OF d])
  show ?case
  proof (cases "fst (probe nw self sub ms)")
    case None
    then have o: "output_handlers ?s1 = [h]"
      by (simp add: check_subdomain_state record_result_handlers Cons.prems)
    show ?thesis
      unfolding t run_tasks_Cons Cons.IH [OF o Cons.prems(2) Cons.prems(3)] hd
      by (simp add: None)
  next
    case (Some r)
    obtain dname ips mth where r: "r = (dname, ips, mth)" by (cases r)
    let ?h = "h\<lparr>content := content h @ csv_row (dname, ips, mth, now)\<rparr>"
    have o: "output_handlers ?s1 = [?h]"
      by (simp add: check_subdomain_state record_result_handlers Some r Cons.prems handler_write_csv)
    have k: "hkind ?h = CSVOutput" and c: "\<not> closed ?h"
      by (simp_all add: Cons.prems)
    show ?thesis
      unfolding t run_tasks_Cons Cons.IH [OF o k c] hd
      by (simp add: Some r)
  qed
qed

lemma init_csv:
  assumes "endswith path ''.csv''"
  shows "output_handlers (SubdomainScanner_init d (Some path) banner start)
     = [\<lparr>hkind = CSVOutput, filename = path, content = ''domain,ips,method,discovery_time\<newline>'',
         first_entry = False, closed = False\<rparr>]"
  using csv_path [OF assms]
  by (simp add: SubdomainScanner_init_def assms OutputHandler_init_def write_header_def file_write_def)

text \<open>
  Claim C7.  A scanner whose output path ends in \<open>.csv\<close> writes a CSV file.  When the
  scanner is made, the file holds the line \<open>domain,ips,method,discovery_time\<close>.  After a
  scan, and after the report that closes the file, it holds that line followed by one
  row for each record found, in the order in which the records were found; the first
  line is still \<open>domain,ips,method,discovery_time\<close>.  A row is the domain, the addresses
  joined by semicolons, the method and the time of discovery, each between double
  quotes, separated by commas and ended by a newline.  The same holds for the sink on
  its own: header, one row for each write, close.
\<close>

theorem csv_output_rows:
  "(endswith path ''.csv''
      \<longrightarrow> map content (output_handlers (SubdomainScanner_init d (Some path) banner start))
            = [''domain,ips,method,discovery_time\<newline>'']
          \<and> map content (output_handlers
                (fst (run_tasks nw ms schedule (SubdomainScanner_init d (Some path) banner start))))
            = [''domain,ips,method,discovery_time\<newline>''
                 @ concat (map csv_row
                     (hits nw (SubdomainScanner_init d (Some path) banner start) ms schedule))]
          \<and> map content (output_handlers (fst (generate_report
                (fst (run_tasks nw ms schedule (SubdomainScanner_init d (Some path) banner start))))))
            = [''domain,ips,method,discovery_time\<newline>''
                 @ concat (map csv_row
                     (hits nw (SubdomainScanner_init d (Some path) banner start) ms schedule))]
          \<and> map closed (output_handlers (fst (generate_report
                (fst (run_tasks nw ms schedule (SubdomainScanner_init d (Some path) banner start))))))
            = [True])
   \<and> sink_output CSVOutput banner start records
       = Some (''domain,ips,method,discovery_time\<newline>'' @ concat (map csv_row records))
   \<and> first_line (''domain,ips,method,discovery_time\<newline>'' @ concat (map csv_row records))
       = ''domain,ips,method,discovery_time''
   \<and> csv_row (dname, ips, mth, stamp)
       = csv_quote dname @ '','' @ csv_quote (py_join '';'' ips) @ '','' @ csv_quote mth @ '',''
           @ csv_quote stamp @ ''\<newline>''
   \<and> csv_quote field = [CHR 0x22] @ field @ [CHR 0x22]"
proof (intro conjI impI)
  let ?s = "SubdomainScanner_init d (Some path) banner start"
  let ?h = "\<lparr>hkind = CSVOutput, filename = path, content = ''domain,ips,method,discovery_time\<newline>'',
         first_entry = False, closed = False\<rparr>"
  assume e: "endswith path ''.csv''"
  have o: "output_handlers ?s = [?h]"
    by (rule init_csv [OF e])
  have r: "output_handlers (fst (run_tasks nw ms schedule ?s))
      = [?h\<lparr>content := content ?h @ concat (map csv_row (hits nw ?s ms schedule))\<rparr>]"
    by (rule run_tasks_csv [OF o]) simp_all
  show "map content (output_handlers ?s) = [''domain,ips,method,discovery_time\<newline>'']"
    by (simp add: o)
  show "map content (output_handlers (fst (run_tasks nw ms schedule ?s)))
            = [''domain,ips,method,discovery_time\<newline>''
                 @ concat (map csv_row (hits nw ?s ms schedule))]"
    by (simp add: r)
  show "map content (output_handlers (fst (generate_report (fst (run_tasks nw ms schedule ?s)))))
            = [''domain,ips,method,discovery_time\<newline>''
                 @ concat (map csv_row (hits nw ?s ms schedule))]"
    by (simp add: generate_report_def r handler_close_def)
  show "map closed (output_handlers (fst (generate_report (fst (run_tasks nw ms schedule ?s))))) = [True]"
    by (simp add: generate_report_def r handler_close_def)
next
  let ?h = "OutputHandler_init CSVOutput [] banner start"
  have k: "hkind ?h = CSVOutput" and c: "\<not> closed ?h"
    and t: "content ?h = ''domain,ips,method,discovery_time\<newline>''"
    by (simp_all add: OutputHandler_init_def write_header_def file_write_def)
  show "sink_output CSVOutput banner start records
       = Some (''domain,ips,method,discovery_time\<newline>'' @ concat (map csv_row records))"
    by (simp add: sink_output_def write_all_csv [OF k c] handler_close_def k t)
next
  show "first_line (''domain,ips,method,discovery_time\<newline>'' @ concat (map csv_row records))
       = ''domain,ips,method,discovery_time''"
    by (simp add: first_line_def)
next
  show "csv_row (dname, ips, mth, stamp)
       = csv_quote dname @ '','' @ csv_quote (py_join '';'' ips) @ '','' @ csv_quote mth @ '',''
           @ csv_quote stamp @ ''\<newline>''"
    by (rule csv_row_fields)
next
  show "csv_quote field = [CHR 0x22] @ field @ [CHR 0x22]"
    by (simp add: csv_quote_def)
qed

lemma example_csv_domain: "domain example_csv_scanner = domain example_scanner"
  by code_simp

lemma example_csv_hits:
  "hits example_net example_csv_scanner [''dns'', ''http''] [(''www'', ''t1''), (''nope'', ''t2''), (''api'', ''t3'')]
     = [(''www.example.com'', [''93.184.216.34''], ''DNS'', ''t1''),
        (''api.example.com'', [''http://api.example.com''], ''HTTP'', ''t3'')]"
  unfolding hits_domain_only [OF example_csv_domain]
  by (simp add: example_probe_www example_probe_nope example_probe_api)

theorem csv_output_rows_witness:
  \<open>endswith ''report.csv'' ''.csv''
   \<and> map content (output_handlers (fst (generate_report
        (fst (run_tasks example_net [''dns'', ''http'']
           [(''www'', ''t1''), (''nope'', ''t2''), (''api'', ''t3'')] example_csv_scanner)))))
      = [''domain,ips,method,discovery_time\<newline>"www.example.com","93.184.216.34","DNS","t1"\<newline>"api.example.com","http://api.example.com","HTTP","t3"\<newline>'']
   \<and> sink_output CSVOutput [] ''2024-05-01T10:00:00'' [(''a.example.com'', [''10.0.0.1'', ''10.0.0.2''], ''DNS'', ''t1'')]
      = Some ''domain,ips,method,discovery_time\<newline>"a.example.com","10.0.0.1;10.0.0.2","DNS","t1"\<newline>''\<close>
proof -
  have e: "endswith ''report.csv'' ''.csv''"
    by (simp add: endswith_def)
  note t = csv_output_rows [of "''report.csv''" "''example.com''" "[]" "''2024-05-01T10:00:00''" example_net
      "[''dns'', ''http'']" "[(''www'', ''t1''), (''nope'', ''t2''), (''api'', ''t3'')]"
      "[(''a.example.com'', [''10.0.0.1'', ''10.0.0.2''], ''DNS'', ''t1'')]"]
  from t [THEN conjunct1, THEN mp, OF e, THEN conjunct2, THEN conjunct2, THEN conjunct1]
  have 1: "map content (output_handlers (fst (generate_report
        (fst (run_tasks example_net [''dns'', ''http'']
           [(''www'', ''t1''), (''nope'', ''t2''), (''api'', ''t3'')] example_csv_scanner)))))
      = [''domain,ips,method,discovery_time\<newline>''
           @ concat (map csv_row [(''www.example.com'', [''93.184.216.34''], ''DNS'', ''t1''),
               (''api.example.com'', [''http://api.example.com''], ''HTTP'', ''t3'')])]"
    unfolding example_csv_scanner_def [symmetric] example_csv_hits .
  from t [THEN conjunct2, THEN conjunct1]
  have 2: "sink_output CSVOutput [] ''2024-05-01T10:00:00'' [(''a.example.com'', [''10.0.0.1'', ''10.0.0.2''], ''DNS'', ''t1'')]
      = Some (''domain,ips,method,discovery_time\<newline>''
           @ concat (map csv_row [(''a.example.com'', [''10.0.0.1'', ''10.0.0.2''], ''DNS'', ''t1'')]))" .
  show ?thesis
    unfolding 1 2 by (simp add: e csv_row_def csv_quote_def)
qed

section \<open>The built-in list\<close>

text \<open>
  Claim C2.  \<open>common_scan\<close> submits one task for every entry of its built-in list, and
  the list is not free of duplicates: it has 90 entries and 83 different labels, and
  \<open>ftp\<close>, \<open>test\<close>, \<open>secure\<close>, \<open>shop\<close>, \<open>app\<close>, \<open>cdn\<close> and \<open>docs\<close> are each named twice.  A
  completed scan of the list for \<open>example.com\<close> therefore counts 90 candidates and looks
  \<open>shop.example.com\<close> up twice, while \<open>www.example.com\<close>, named once, is looked up once.
\<close>

theorem common_scan_probes_duplicates:
  "\<not> distinct common_subdomains
   \<and> length common_subdomains = 90
   \<and> card (set common_subdomains) = 83
   \<and> map (count_list common_subdomains) [''ftp'', ''test'', ''secure'', ''shop'', ''app'', ''cdn'', ''docs'']
       = [2, 2, 2, 2, 2, 2, 2]
   \<and> as_completed common_subdomains (map (\<lambda>s. (s, ''t'')) common_subdomains)
   \<and> checked_count (fst (common_scan example_net example_scanner [''dns'', ''http'']
         (map (\<lambda>s. (s, ''t'')) common_subdomains))) = 90
   \<and> count_list (snd (common_scan example_net example_scanner [''dns'', ''http'']
         (map (\<lambda>s. (s, ''t'')) common_subdomains))) (Resolve ''shop.example.com'') = 2
   \<and> count_list (snd (common_scan example_net example_scanner [''dns'', ''http'']
         (map (\<lambda>s. (s, ''t'')) common_subdomains))) (Resolve ''www.example.com'') = 1"
proof (intro conjI)
  show "as_completed common_subdomains (map (\<lambda>s. (s, ''t'')) common_subdomains)"
    by (simp add: as_completed_def comp_def)
qed code_simp+

section \<open>The JSON file\<close>

text \<open>
  Claim C1.  The header of the JSON sink opens two objects and an array, and \<open>close\<close>
  writes \<open>]}\<close>, which closes the array and one object.  What the sink has written after
  the header, the writes and the close is therefore not a JSON value: reading it
  fails, for no record and for two records alike.  With one more closing brace it
  reads as the object \<open>scan_info\<close> with the start time and the list of the records, and
  each entry the sink writes reads, on its own, as the record: domain, addresses in
  their order, method and time of discovery.
\<close>

theorem json_sink_not_closed:
  \<open>sink_output JSONOutput [] ''2024-05-01T10:00:00'' []
     = Some ''{"scan_info": {"start_time": "2024-05-01T10:00:00", "subdomains": []}''
   \<and> map_option json_loads (sink_output JSONOutput [] ''2024-05-01T10:00:00'' []) = Some None
   \<and> map_option json_loads
        (sink_output JSONOutput [] ''2024-05-01T10:00:00''
           [(''www.example.com'', [''93.184.216.34'', ''93.184.216.35''], ''DNS'', ''2024-05-01T10:00:01''),
            (''api.example.com'', [''http://api.example.com''], ''HTTP'', ''2024-05-01T10:00:02'')])
      = Some None
   \<and> map_option (\<lambda>s. json_loads (s @ ''}''))
        (sink_output JSONOutput [] ''2024-05-01T10:00:00''
           [(''www.example.com'', [''93.184.216.34'', ''93.184.216.35''], ''DNS'', ''2024-05-01T10:00:01''),
            (''api.example.com'', [''http://api.example.com''], ''HTTP'', ''2024-05-01T10:00:02'')])
      = Some (Some (scan_info_json ''2024-05-01T10:00:00''
           [(''www.example.com'', [''93.184.216.34'', ''93.184.216.35''], ''DNS'', ''2024-05-01T10:00:01''),
            (''api.example.com'', [''http://api.example.com''], ''HTTP'', ''2024-05-01T10:00:02'')]))
   \<and> json_loads (json_dumps_entry ''www.example.com'' [''93.184.216.34'', ''93.184.216.35''] ''DNS''
          ''2024-05-01T10:00:01'')
      = Some (entry_json (''www.example.com'', [''93.184.216.34'', ''93.184.216.35''], ''DNS'',
          ''2024-05-01T10:00:01''))\<close>
  by (intro conjI) code_simp+

end
